theory Spec2Isabelle
  imports Complex_Main
begin

section \<open>The k-means routine of the clustering notebook\<close>

text \<open>
  The notebook's routine, as written in the source:
  \<^verbatim>\<open>
  def all_dist(observation, data):
      return numpy.sqrt((data[0, :] - observation[0])**2 + (data[1, :] - observation[1])**2)

  def cluster(data, k):
      centroids = numpy.array([data[:, numpy.random.randint(sample)] for _ in range(k)])
      done = False
      while not done:
          distances = numpy.empty((k,sample))
          for d in range(k):
              distances[d, :] = all_dist(centroids[d], data)
          winners = numpy.argmin(distances, axis = 0)
          clusters = [data[:, winners == i] for i in range(k)]
          prev_centroids = centroids
          centroids = numpy.array([numpy.average(cluster, axis = 1) for cluster in clusters])
          if numpy.sum(prev_centroids-centroids) == 0:
              done=True
      for cluster, color in zip(clusters, ['go', 'ro', 'bo']):
          plt.plot(cluster[0, :], cluster[1, :], color)
      plt.show()
  \<close>
  \<open>sample\<close> is a global of the notebook (the number of simulated people, 100 there);
  \<open>data\<close> is a two-dimensional array with one row per coordinate and one column per point.
\<close>


subsection \<open>Numbers\<close>

text \<open>
  The arithmetic of the arrays is numpy's: 64-bit floats with their rounding, underflow
  and infinities, or 64-bit integers with wrap-around for an array of integers. It is
  not part of the source, so the routine takes it as a parameter \<open>ar\<close>: the type \<open>'a\<close> of
  the array elements and the operations the source applies to them.
\<close>

record 'a arith =
  fsub :: "'a \<Rightarrow> 'a \<Rightarrow> 'a"
  fadd :: "'a \<Rightarrow> 'a \<Rightarrow> 'a"
  fsq :: "'a \<Rightarrow> 'a"
  fsqrt :: "'a \<Rightarrow> 'a"
  fsum :: "'a list \<Rightarrow> 'a"
  fmean :: "'a list \<Rightarrow> 'a"
  fge :: "'a \<Rightarrow> 'a \<Rightarrow> bool"
  fnan :: "'a \<Rightarrow> bool"
  feq0 :: "'a \<Rightarrow> bool"

text \<open>
  \<open>fsub\<close> is \<open>x - y\<close>, \<open>fadd\<close> is \<open>x + y\<close>, \<open>fsq\<close> is \<open>x ** 2\<close>, \<open>fsqrt\<close> is
  \<open>numpy.sqrt\<close>, \<open>fsum\<close> is \<open>numpy.sum\<close> over the entries of an array, \<open>fmean\<close> is
  \<open>numpy.average\<close> of one row, \<open>fge\<close> is \<open>x >= y\<close>, \<open>fnan\<close> tells a NaN and \<open>feq0\<close> is
  \<open>x == 0\<close>.
\<close>

text \<open>
  One arithmetic is written out: \<open>exact\<close>, on real numbers and NaN, without rounding.
  NaN is what the mean of an empty row is (0.0 / 0), and it spreads as in numpy. The
  runs on concrete inputs below use it.
\<close>

datatype fl = Fin real | NaN

fun isnan :: "fl \<Rightarrow> bool" where
  "isnan NaN = True"
| "isnan (Fin a) = False"

fun xsub :: "fl \<Rightarrow> fl \<Rightarrow> fl" where
  "xsub (Fin a) (Fin b) = Fin (a - b)"
| "xsub _ _ = NaN"

fun xadd :: "fl \<Rightarrow> fl \<Rightarrow> fl" where
  "xadd (Fin a) (Fin b) = Fin (a + b)"
| "xadd _ _ = NaN"

fun xsq :: "fl \<Rightarrow> fl" where
  "xsq (Fin a) = Fin (a * a)"
| "xsq NaN = NaN"

text \<open>\<open>numpy.sqrt\<close>: NaN on a negative number.\<close>

fun xsqrt :: "fl \<Rightarrow> fl" where
  "xsqrt (Fin a) = (if a < 0 then NaN else Fin (sqrt a))"
| "xsqrt NaN = NaN"

text \<open>Division of a sum by the number of its terms: \<open>0.0 / 0\<close> is NaN.\<close>

fun xdivn :: "fl \<Rightarrow> nat \<Rightarrow> fl" where
  "xdivn (Fin a) n = (if n = 0 then NaN else Fin (a / real n))"
| "xdivn NaN n = NaN"

text \<open>\<open>x >= y\<close> and \<open>x == 0\<close>: false when NaN is involved.\<close>

fun xge :: "fl \<Rightarrow> fl \<Rightarrow> bool" where
  "xge (Fin a) (Fin b) = (b \<le> a)"
| "xge _ _ = False"

fun xeq0 :: "fl \<Rightarrow> bool" where
  "xeq0 (Fin a) = (a = 0)"
| "xeq0 NaN = False"

definition xsum :: "fl list \<Rightarrow> fl" where
  "xsum xs = foldr xadd xs (Fin 0)"

definition xmean :: "fl list \<Rightarrow> fl" where
  "xmean xs = xdivn (xsum xs) (length xs)"

definition exact :: "fl arith" where
  "exact = \<lparr>fsub = xsub, fadd = xadd, fsq = xsq, fsqrt = xsqrt, fsum = xsum, fmean = xmean,
             fge = xge, fnan = isnan, feq0 = xeq0\<rparr>"

subsection \<open>Arrays and errors\<close>

datatype error = ValueError | IndexError

text \<open>A vector is a list; a two-dimensional array is the list of its rows.\<close>

type_synonym 'a vec = "'a list"
type_synonym 'a matrix = "'a list list"

text \<open>The number of columns of an array; for the data array, the number of points N.\<close>

definition ncols :: "'a matrix \<Rightarrow> nat" where
  "ncols m = (case m of [] \<Rightarrow> 0 | row # _ \<Rightarrow> length row)"

text \<open>A numpy array is rectangular; the data array has at least one row.\<close>

definition rect :: "'a matrix \<Rightarrow> bool" where
  "rect m = (m \<noteq> [] \<and> list_all (\<lambda>row. length row = ncols m) m)"

text \<open>\<open>data[:, j]\<close>: IndexError when \<open>j\<close> is not a column.\<close>

definition column :: "'a matrix \<Rightarrow> nat \<Rightarrow> error + 'a vec" where
  "column data j =
     (if j < ncols data then Inr (map (\<lambda>row. row ! j) data) else Inl IndexError)"

subsection \<open>all_dist\<close>

text \<open>
  Rows 0 and 1 of \<open>data\<close> and entries 0 and 1 of \<open>observation\<close> are read, and no other:
  IndexError when either has fewer than two.
\<close>

definition all_dist :: "'a arith \<Rightarrow> 'a vec \<Rightarrow> 'a matrix \<Rightarrow> error + 'a vec" where
  "all_dist ar observation data =
     (if length data < 2 \<or> length observation < 2 then Inl IndexError
      else Inr (map2 (\<lambda>x y. fsqrt ar (fadd ar (fsq ar (fsub ar x (observation ! 0)))
                                               (fsq ar (fsub ar y (observation ! 1)))))
                     (data ! 0) (data ! 1)))"

subsection \<open>The steps of cluster\<close>

text \<open>
  The initial centroids: one call of \<open>numpy.random.randint(sample)\<close> per centroid
  (ValueError when \<open>sample\<close> is 0), each followed by \<open>data[:, r]\<close>. The values drawn
  are the list \<open>rs\<close>; \<open>randint(sample)\<close> draws below \<open>sample\<close>.
\<close>

fun init_centroids :: "nat \<Rightarrow> 'a matrix \<Rightarrow> nat list \<Rightarrow> error + 'a matrix" where
  "init_centroids sample data [] = Inr []"
| "init_centroids sample data (r # rs) =
     (if sample = 0 then Inl ValueError
      else case column data r of
             Inl e \<Rightarrow> Inl e
           | Inr c \<Rightarrow> (case init_centroids sample data rs of
                         Inl e \<Rightarrow> Inl e
                       | Inr cs \<Rightarrow> Inr (c # cs)))"

text \<open>
  \<open>distances[d, :] = v\<close> on a row of \<open>sample\<close> entries: a vector of one entry is
  broadcast, any other length than \<open>sample\<close> is a ValueError.
\<close>

definition set_row :: "nat \<Rightarrow> 'a vec \<Rightarrow> error + 'a vec" where
  "set_row sample v =
     (if length v = sample then Inr v
      else if length v = 1 then Inr (replicate sample (v ! 0))
      else Inl ValueError)"

text \<open>
  The loop over \<open>d\<close> that fills the distance matrix: \<open>ds\<close> is \<open>range(k)\<close>, and
  \<open>centroids[d]\<close> is an IndexError when there is no such row.
\<close>

fun dist_rows ::
  "'a arith \<Rightarrow> nat \<Rightarrow> 'a matrix \<Rightarrow> 'a matrix \<Rightarrow> nat list \<Rightarrow> error + 'a matrix" where
  "dist_rows ar sample data centroids [] = Inr []"
| "dist_rows ar sample data centroids (d # ds) =
     (if length centroids \<le> d then Inl IndexError
      else case all_dist ar (centroids ! d) data of
             Inl e \<Rightarrow> Inl e
           | Inr v \<Rightarrow> (case set_row sample v of
                         Inl e \<Rightarrow> Inl e
                       | Inr row \<Rightarrow> (case dist_rows ar sample data centroids ds of
                                       Inl e \<Rightarrow> Inl e
                                     | Inr rows \<Rightarrow> Inr (row # rows))))"

text \<open>
  \<open>numpy.argmin\<close> on one column of the distance matrix, as numpy's loop runs it: the
  candidate \<open>mp\<close> at index \<open>mi\<close> is replaced by a later entry \<open>x\<close> unless \<open>x >= mp\<close>,
  and the scan stops at a NaN. So the result is the first NaN if there is one, and
  the first least entry otherwise.
\<close>

fun argmin_from :: "'a arith \<Rightarrow> 'a \<Rightarrow> nat \<Rightarrow> nat \<Rightarrow> 'a list \<Rightarrow> nat" where
  "argmin_from ar mp mi i [] = mi"
| "argmin_from ar mp mi i (x # xs) =
     (if fnan ar mp then mi
      else if \<not> fge ar x mp then argmin_from ar x i (Suc i) xs
      else argmin_from ar mp mi (Suc i) xs)"

definition argmin :: "'a arith \<Rightarrow> 'a list \<Rightarrow> nat" where
  "argmin ar xs = (case xs of [] \<Rightarrow> 0 | x # rest \<Rightarrow> argmin_from ar x 0 1 rest)"

text \<open>
  \<open>numpy.argmin(distances, axis = 0)\<close>: one winner per column of its argument;
  ValueError when the matrix has no row.
\<close>

definition argmin_axis0 :: "'a arith \<Rightarrow> 'a matrix \<Rightarrow> error + nat list" where
  "argmin_axis0 ar distances =
     (if distances = [] then Inl ValueError
      else Inr (map (\<lambda>j. argmin ar (map (\<lambda>row. row ! j) distances)) [0..<ncols distances]))"

text \<open>
  \<open>data[:, winners == i]\<close>: the columns of \<open>data\<close> whose winner is \<open>i\<close>, in order,
  again as a list of rows; IndexError when the mask is not as long as a row of \<open>data\<close>.
\<close>

definition select_cols :: "'a matrix \<Rightarrow> nat list \<Rightarrow> nat \<Rightarrow> error + 'a matrix" where
  "select_cols data winners i =
     (if length winners \<noteq> ncols data then Inl IndexError
      else Inr (map (\<lambda>row. map fst (filter (\<lambda>(x, w). w = i) (zip row winners))) data))"

fun make_clusters :: "'a matrix \<Rightarrow> nat list \<Rightarrow> nat list \<Rightarrow> error + 'a matrix list" where
  "make_clusters data winners [] = Inr []"
| "make_clusters data winners (i # is) =
     (case select_cols data winners i of
        Inl e \<Rightarrow> Inl e
      | Inr c \<Rightarrow> (case make_clusters data winners is of
                    Inl e \<Rightarrow> Inl e
                  | Inr cs \<Rightarrow> Inr (c # cs)))"

text \<open>\<open>numpy.average(cluster, axis = 1)\<close>: the mean of each row.\<close>

definition average :: "'a arith \<Rightarrow> 'a matrix \<Rightarrow> 'a vec" where
  "average ar cluster = map (fmean ar) cluster"

text \<open>
  \<open>numpy.sum(prev_centroids - centroids) == 0\<close>: in every state the loop reaches the
  two arrays have the same shape (\<open>k\<close> rows of D entries, see \<open>iteration_Inr\<close> and
  \<open>iteration_new_length\<close> below), and the sum runs over all entries of the difference.
\<close>

definition mat_sub :: "'a arith \<Rightarrow> 'a matrix \<Rightarrow> 'a matrix \<Rightarrow> 'a matrix" where
  "mat_sub ar a b = map2 (map2 (fsub ar)) a b"

definition converged :: "'a arith \<Rightarrow> 'a matrix \<Rightarrow> 'a matrix \<Rightarrow> bool" where
  "converged ar prev_centroids centroids =
     feq0 ar (fsum ar (concat (mat_sub ar prev_centroids centroids)))"

text \<open>
  One pass through the body of the \<open>while\<close> loop, up to the new centroids. The result
  holds \<open>winners\<close>, \<open>clusters\<close> and the new \<open>centroids\<close>. \<open>numpy.empty((k, sample))\<close> is
  a ValueError for a negative \<open>k\<close>.
\<close>

definition iteration ::
  "'a arith \<Rightarrow> nat \<Rightarrow> 'a matrix \<Rightarrow> int \<Rightarrow> 'a matrix
   \<Rightarrow> error + (nat list \<times> 'a matrix list \<times> 'a matrix)" where
  "iteration ar sample data k centroids =
     (if k < 0 then Inl ValueError
      else case dist_rows ar sample data centroids [0..<nat k] of
             Inl e \<Rightarrow> Inl e
           | Inr distances \<Rightarrow>
               (case argmin_axis0 ar distances of
                  Inl e \<Rightarrow> Inl e
                | Inr winners \<Rightarrow>
                    (case make_clusters data winners [0..<nat k] of
                       Inl e \<Rightarrow> Inl e
                     | Inr clusters \<Rightarrow>
                         Inr (winners, clusters, map (average ar) clusters))))"

text \<open>
  The \<open>while\<close> loop. It may run forever, so its value is an option: \<open>None\<close> when the
  loop never ends, \<open>Some\<close> of an error or of the variables at the exit otherwise.
\<close>

partial_function (option) cluster_loop ::
  "'a arith \<Rightarrow> nat \<Rightarrow> 'a matrix \<Rightarrow> int \<Rightarrow> 'a matrix
   \<Rightarrow> (error + (nat list \<times> 'a matrix list \<times> 'a matrix)) option" where
  "cluster_loop ar sample data k centroids =
     (case iteration ar sample data k centroids of
        Inl e \<Rightarrow> Some (Inl e)
      | Inr (winners, clusters, new_centroids) \<Rightarrow>
          if converged ar centroids new_centroids
          then Some (Inr (winners, clusters, new_centroids))
          else cluster_loop ar sample data k new_centroids)"

text \<open>
  What a call hands back. The source has no \<open>return\<close>, so a call that ends gives
  Python's \<open>None\<close>; \<open>PyPair\<close> is the pair of an assignment and centroids.
\<close>

datatype 'a pyval = PyNone | PyPair "nat list" "'a matrix"

text \<open>
  The plotting loop: \<open>zip\<close> stops after the three colours, and each call of
  \<open>plt.plot\<close> gets rows 0 and 1 of a cluster and its colour. A cluster has the rows
  of \<open>data\<close>, which are two at least once the loop has ended (\<open>all_dist\<close> has run).
\<close>

definition plots :: "'a matrix list \<Rightarrow> ('a vec \<times> 'a vec \<times> string) list" where
  "plots clusters =
     map (\<lambda>(cluster, color). (cluster ! 0, cluster ! 1, color))
         (zip clusters [''go'', ''ro'', ''bo''])"

text \<open>
  The whole routine: the arithmetic, the global \<open>sample\<close>, the arguments \<open>data\<close> and
  \<open>k\<close>, and the values \<open>rng 0\<close>, \<open>rng 1\<close>, ... that the random generator draws. The
  result is the returned value together with what was plotted.
\<close>

definition cluster ::
  "'a arith \<Rightarrow> nat \<Rightarrow> 'a matrix \<Rightarrow> int \<Rightarrow> (nat \<Rightarrow> nat)
   \<Rightarrow> (error + ('a pyval \<times> ('a vec \<times> 'a vec \<times> string) list)) option" where
  "cluster ar sample data k rng =
     (case init_centroids sample data (map rng [0..<nat k]) of
        Inl e \<Rightarrow> Some (Inl e)
      | Inr centroids \<Rightarrow>
          (case cluster_loop ar sample data k centroids of
             None \<Rightarrow> None
           | Some (Inl e) \<Rightarrow> Some (Inl e)
           | Some (Inr (winners, clusters, final_centroids)) \<Rightarrow>
               Some (Inr (PyNone, plots clusters))))"


section \<open>Vocabulary of the properties\<close>

text \<open>
  What the proofs use of an arithmetic. NaN: the mean of an empty row is NaN, a
  difference with a NaN is NaN, a sum with a NaN term is NaN, and NaN is not equal to
  0. Order: \<open>>=\<close> is false when NaN is involved, and on the other values it is total
  and transitive. numpy's floats have both.
\<close>

definition nan_laws :: "'a arith \<Rightarrow> bool" where
  "nan_laws ar =
     (fnan ar (fmean ar []) \<and>
      (\<forall>x y. fnan ar y \<longrightarrow> fnan ar (fsub ar x y)) \<and>
      (\<forall>xs. (\<exists>x\<in>set xs. fnan ar x) \<longrightarrow> fnan ar (fsum ar xs)) \<and>
      (\<forall>x. fnan ar x \<longrightarrow> \<not> feq0 ar x))"

definition order_laws :: "'a arith \<Rightarrow> bool" where
  "order_laws ar =
     ((\<forall>x y. fnan ar x \<or> fnan ar y \<longrightarrow> \<not> fge ar x y) \<and>
      (\<forall>x y. \<not> fnan ar x \<and> \<not> fnan ar y \<longrightarrow> fge ar x y \<or> fge ar y x) \<and>
      (\<forall>x y z. fge ar x y \<and> fge ar y z \<longrightarrow> fge ar x z))"

text \<open>
  The distance that \<open>all_dist\<close> computes from point \<open>j\<close> of the data to the centroid
  \<open>c\<close>, in the arithmetic \<open>ar\<close>.
\<close>

definition point_dist :: "'a arith \<Rightarrow> 'a matrix \<Rightarrow> nat \<Rightarrow> 'a vec \<Rightarrow> 'a" where
  "point_dist ar data j c =
     fsqrt ar (fadd ar (fsq ar (fsub ar (data ! 0 ! j) (c ! 0)))
                       (fsq ar (fsub ar (data ! 1 ! j) (c ! 1))))"

text \<open>
  The centroids at the start of the passes of one run of the loop: the centroids the
  loop starts from, and the new centroids of every pass that did not pass the check.
\<close>

inductive loop_reaches ::
  "'a arith \<Rightarrow> nat \<Rightarrow> 'a matrix \<Rightarrow> int \<Rightarrow> 'a matrix \<Rightarrow> 'a matrix \<Rightarrow> bool"
  for ar sample data k c0 where
  start: "loop_reaches ar sample data k c0 c0"
| step: "loop_reaches ar sample data k c0 c \<Longrightarrow>
         iteration ar sample data k c = Inr (winners, clusters, c') \<Longrightarrow>
         \<not> converged ar c c' \<Longrightarrow> loop_reaches ar sample data k c0 c'"

text \<open>The real number an element of \<open>fl\<close> stands for, and arrays of \<open>fl\<close> without NaN.\<close>

fun val :: "fl \<Rightarrow> real" where
  "val (Fin a) = a"
| "val NaN = 0"

definition finite_mat :: "fl matrix \<Rightarrow> bool" where
  "finite_mat m = list_all (list_all (\<lambda>x. \<not> isnan x)) m"

text \<open>A centroid whose coordinate 0 or 1 is NaN: its row of distances is NaN.\<close>

definition nanc :: "fl vec \<Rightarrow> bool" where
  "nanc c = (isnan (c ! 0) \<or> isnan (c ! 1))"

text \<open>
  Point \<open>j\<close> of the data as a tuple of reals, and the Euclidean distance over all
  coordinates of a point.
\<close>

definition point :: "fl matrix \<Rightarrow> nat \<Rightarrow> real list" where
  "point data j = map (\<lambda>row. val (row ! j)) data"

definition euclid :: "real list \<Rightarrow> real list \<Rightarrow> real" where
  "euclid p c = sqrt (\<Sum>i<length p. (p ! i - c ! i)\<^sup>2)"

text \<open>
  The total within-cluster squared distance: the sum over all points of the squared
  distance (over all coordinates) from the point to the centroid it is assigned to.
\<close>

definition sqdist :: "fl vec \<Rightarrow> fl vec \<Rightarrow> fl" where
  "sqdist p c = xsum (map2 (\<lambda>x y. xsq (xsub x y)) p c)"

definition wcss :: "fl matrix \<Rightarrow> nat list \<Rightarrow> fl matrix \<Rightarrow> fl" where
  "wcss data winners centroids =
     xsum (map (\<lambda>j. sqdist (map (\<lambda>row. row ! j) data) (centroids ! (winners ! j)))
               [0..<length winners])"

section \<open>Inputs used below\<close>

text \<open>
  The four points (0,0), (0,1), (10,10), (10,11) with \<open>k = 2\<close>, \<open>sample = 4\<close> and the
  draws 0 and 2, so that the initial centroids are (0,0) and (10,10). \<open>rngD\<close> draws
  0, 1, 2, 0 for \<open>k = 4\<close>.
\<close>

definition dataS :: "fl matrix" where
  "dataS = [[Fin 0, Fin 0, Fin 10, Fin 10], [Fin 0, Fin 1, Fin 10, Fin 11]]"

definition rngS :: "nat \<Rightarrow> nat" where
  "rngS i = (if i = 0 then 0 else 2)"

definition centS :: "fl matrix" where
  "centS = [[Fin 0, Fin 0], [Fin 10, Fin 10]]"

definition winS :: "nat list" where
  "winS = [0, 0, 1, 1]"

definition clusS :: "fl matrix list" where
  "clusS = [[[Fin 0, Fin 0], [Fin 0, Fin 1]], [[Fin 10, Fin 10], [Fin 10, Fin 11]]]"

definition newS :: "fl matrix" where
  "newS = [[Fin 0, Fin (1 / 2)], [Fin 10, Fin (21 / 2)]]"

definition rngD :: "nat \<Rightarrow> nat" where
  "rngD i = (if i < 3 then i else 0)"

text \<open>
  The two points (0,0) and (1,0) with \<open>sample = 2\<close>. \<open>rngB\<close> draws 0, 1, 0 for
  \<open>k = 3\<close>; \<open>rngW\<close> draws 1, 0 for \<open>k = 2\<close>.
\<close>

definition dataA :: "fl matrix" where
  "dataA = [[Fin 0, Fin 1], [Fin 0, Fin 0]]"

definition rngB :: "nat \<Rightarrow> nat" where
  "rngB i = (if i = 1 then 1 else 0)"

definition rngW :: "nat \<Rightarrow> nat" where
  "rngW i = 1 - i"

definition centW :: "fl matrix" where
  "centW = [[Fin 1, Fin 0], [Fin 0, Fin 0]]"

text \<open>
  The three points (0,0), (2,-2), (-1,0) with \<open>k = 2\<close>, \<open>sample = 3\<close> and the draws
  0 and 2: the first pass and the pass that would follow it.
\<close>

definition dataC :: "fl matrix" where
  "dataC = [[Fin 0, Fin 2, Fin (- 1)], [Fin 0, Fin (- 2), Fin 0]]"

definition rngC :: "nat \<Rightarrow> nat" where
  "rngC i = (if i = 0 then 0 else 2)"

definition centC :: "fl matrix" where
  "centC = [[Fin 0, Fin 0], [Fin (- 1), Fin 0]]"

definition winC :: "nat list" where
  "winC = [0, 0, 1]"

definition clusC :: "fl matrix list" where
  "clusC = [[[Fin 0, Fin 2], [Fin 0, Fin (- 2)]], [[Fin (- 1)], [Fin 0]]]"

definition newC :: "fl matrix" where
  "newC = [[Fin 1, Fin (- 1)], [Fin (- 1), Fin 0]]"

definition winC2 :: "nat list" where
  "winC2 = [1, 0, 1]"

definition clusC2 :: "fl matrix list" where
  "clusC2 = [[[Fin 2], [Fin (- 2)]], [[Fin 0, Fin (- 1)], [Fin 0, Fin 0]]]"

definition newC2 :: "fl matrix" where
  "newC2 = [[Fin 2, Fin (- 2)], [Fin (- 1 / 2), Fin 0]]"

text \<open>
  The three points (0,0), (1,0), (10,0) with \<open>k = 3\<close>, \<open>sample = 3\<close> and the draws
  0, 0, 2: the first two passes.
\<close>

definition data5 :: "fl matrix" where
  "data5 = [[Fin 0, Fin 1, Fin 10], [Fin 0, Fin 0, Fin 0]]"

definition rng5 :: "nat \<Rightarrow> nat" where
  "rng5 i = (if i = 2 then 2 else 0)"

definition cent5 :: "fl matrix" where
  "cent5 = [[Fin 0, Fin 0], [Fin 0, Fin 0], [Fin 10, Fin 0]]"

definition dist5 :: "fl matrix" where
  "dist5 = [[Fin 0, Fin 1, Fin 10], [Fin 0, Fin 1, Fin 10], [Fin 10, Fin 9, Fin 0]]"

definition win5a :: "nat list" where
  "win5a = [0, 0, 2]"

definition clus5a :: "fl matrix list" where
  "clus5a = [[[Fin 0, Fin 1], [Fin 0, Fin 0]], [[], []], [[Fin 10], [Fin 0]]]"

definition new5a :: "fl matrix" where
  "new5a = [[Fin (1 / 2), Fin 0], [NaN, NaN], [Fin 10, Fin 0]]"

definition win5b :: "nat list" where
  "win5b = [1, 1, 1]"

definition clus5b :: "fl matrix list" where
  "clus5b = [[[], []], [[Fin 0, Fin 1, Fin 10], [Fin 0, Fin 0, Fin 0]], [[], []]]"

definition new5b :: "fl matrix" where
  "new5b = [[NaN, NaN], [Fin (11 / 3), Fin 0], [NaN, NaN]]"

text \<open>
  Three points of three coordinates, (0,0,0), (1,0,10), (3,0,10), with \<open>k = 2\<close>,
  \<open>sample = 3\<close> and the draws 0 and 2.
\<close>

definition data3 :: "fl matrix" where
  "data3 = [[Fin 0, Fin 1, Fin 3], [Fin 0, Fin 0, Fin 0], [Fin 0, Fin 10, Fin 10]]"

definition rng3 :: "nat \<Rightarrow> nat" where
  "rng3 i = (if i = 0 then 0 else 2)"

definition cent3 :: "fl matrix" where
  "cent3 = [[Fin 0, Fin 0, Fin 0], [Fin 3, Fin 0, Fin 10]]"

definition win3 :: "nat list" where
  "win3 = [0, 0, 1]"

definition clus3 :: "fl matrix list" where
  "clus3 = [[[Fin 0, Fin 1], [Fin 0, Fin 0], [Fin 0, Fin 10]], [[Fin 3], [Fin 0], [Fin 10]]]"

definition new3 :: "fl matrix" where
  "new3 = [[Fin (1 / 2), Fin 0, Fin 5], [Fin 3, Fin 0, Fin 10]]"

text \<open>A data array of two rows and no column.\<close>

definition data0 :: "fl matrix" where
  "data0 = [[], []]"



section \<open>Properties of the steps\<close>

subsection \<open>argmin\<close>

lemma argmin_from_bound: "mi < i \<Longrightarrow> argmin_from ar mp mi i xs < i + length xs"
proof (induction xs arbitrary: mp mi i)
  case Nil
  then show ?case by simp
next
  case (Cons x xs)
  have a: "argmin_from ar x i (Suc i) xs < Suc i + length xs" by (rule Cons.IH) simp
  have b: "argmin_from ar mp mi (Suc i) xs < Suc i + length xs"
    by (rule Cons.IH) (use Cons.prems in simp)
  show ?case using a b Cons.prems by simp
qed

lemma argmin_bound: "xs \<noteq> [] \<Longrightarrow> argmin ar xs < length xs"
  using argmin_from_bound[of 0 1] by (cases xs) (auto simp: argmin_def)

lemma order_nan: "order_laws ar \<Longrightarrow> fnan ar x \<or> fnan ar y \<Longrightarrow> \<not> fge ar x y"
  unfolding order_laws_def by blast

lemma order_total:
  "order_laws ar \<Longrightarrow> \<not> fnan ar x \<Longrightarrow> \<not> fnan ar y \<Longrightarrow> fge ar x y \<or> fge ar y x"
  unfolding order_laws_def by blast

lemma order_trans: "order_laws ar \<Longrightarrow> fge ar x y \<Longrightarrow> fge ar y z \<Longrightarrow> fge ar x z"
  unfolding order_laws_def by blast

text \<open>
  The scan of \<open>argmin\<close> over entries without NaN: \<open>pre\<close> is the part already seen,
  \<open>mp\<close> its first least entry.
\<close>

lemma argmin_from_least:
  assumes ol: "order_laws ar"
  shows "length pre = i \<Longrightarrow> mi < i \<Longrightarrow> pre ! mi = mp \<Longrightarrow>
   \<forall>x\<in>set (pre @ xs). \<not> fnan ar x \<Longrightarrow>
   \<forall>t<i. fge ar (pre ! t) mp \<Longrightarrow> \<forall>t<mi. \<not> fge ar mp (pre ! t) \<Longrightarrow>
   r = argmin_from ar mp mi i xs \<Longrightarrow>
   r < i + length xs \<and> (\<forall>t < i + length xs. fge ar ((pre @ xs) ! t) ((pre @ xs) ! r)) \<and>
   (\<forall>t<r. \<not> fge ar ((pre @ xs) ! r) ((pre @ xs) ! t))"
proof (induction xs arbitrary: pre i mi mp)
  case Nil
  then show ?case by simp
next
  case (Cons x xs)
  have nx: "\<not> fnan ar x" using Cons.prems(4) by simp
  have nmp: "\<not> fnan ar mp" using Cons.prems(1-4) by (metis UnCI nth_mem set_append)
  have npre: "\<not> fnan ar (pre ! t)" if "t < i" for t
    using Cons.prems(1,4) that by (metis UnCI nth_mem set_append)
  have all': "\<forall>y\<in>set ((pre @ [x]) @ xs). \<not> fnan ar y" using Cons.prems(4) by simp
  have len': "length (pre @ [x]) = Suc i" using Cons.prems(1) by simp
  let ?goal = "\<lambda>r. r < Suc i + length xs \<and>
      (\<forall>t < Suc i + length xs. fge ar (((pre @ [x]) @ xs) ! t) (((pre @ [x]) @ xs) ! r)) \<and>
      (\<forall>t<r. \<not> fge ar (((pre @ [x]) @ xs) ! r) (((pre @ [x]) @ xs) ! t))"
  show ?case
  proof (cases "fge ar x mp")
    case False
    have r: "r = argmin_from ar x i (Suc i) xs" using Cons.prems(7) False nmp by simp
    have mpx: "fge ar mp x" using order_total[OF ol nx nmp] False by blast
    have "?goal r"
    proof (rule Cons.IH[OF len' _ _ all' _ _ r])
      show "i < Suc i" by simp
      show "(pre @ [x]) ! i = x" using Cons.prems(1) by (simp add: nth_append)
      show "\<forall>t<Suc i. fge ar ((pre @ [x]) ! t) x"
      proof (intro allI impI)
        fix t assume "t < Suc i"
        show "fge ar ((pre @ [x]) ! t) x"
        proof (cases "t < i")
          case True
          then have "fge ar (pre ! t) mp" using Cons.prems(5) by simp
          from order_trans[OF ol this mpx] True Cons.prems(1) show ?thesis
            by (simp add: nth_append)
        next
          case False
          with \<open>t < Suc i\<close> have "t = i" by simp
          moreover have "fge ar x x" using order_total[OF ol nx nx] by blast
          ultimately show ?thesis using Cons.prems(1) by (simp add: nth_append)
        qed
      qed
      show "\<forall>t<i. \<not> fge ar x ((pre @ [x]) ! t)"
      proof (intro allI impI notI)
        fix t assume t: "t < i" and g: "fge ar x ((pre @ [x]) ! t)"
        then have "fge ar x (pre ! t)" using Cons.prems(1) by (simp add: nth_append)
        moreover have "fge ar (pre ! t) mp" using Cons.prems(5) t by simp
        ultimately have "fge ar x mp" by (rule order_trans[OF ol])
        with False show False by simp
      qed
    qed
    then show ?thesis by simp
  next
    case True
    have r: "r = argmin_from ar mp mi (Suc i) xs" using Cons.prems(7) True nmp by simp
    have "?goal r"
    proof (rule Cons.IH[OF len' _ _ all' _ _ r])
      show "mi < Suc i" using Cons.prems(2) by simp
      show "(pre @ [x]) ! mi = mp" using Cons.prems(1-3) by (simp add: nth_append)
      show "\<forall>t<Suc i. fge ar ((pre @ [x]) ! t) mp"
        using Cons.prems(1,5) True by (auto simp: nth_append less_Suc_eq)
      show "\<forall>t<mi. \<not> fge ar mp ((pre @ [x]) ! t)"
        using Cons.prems(1,2,6) by (auto simp: nth_append)
    qed
    then show ?thesis by simp
  qed
qed

lemma argmin_least:
  assumes "order_laws ar" "xs \<noteq> []" "\<forall>x\<in>set xs. \<not> fnan ar x"
  shows "argmin ar xs < length xs"
    and "\<forall>t<length xs. fge ar (xs ! t) (xs ! argmin ar xs)"
    and "\<forall>t<argmin ar xs. \<not> fge ar (xs ! argmin ar xs) (xs ! t)"
proof -
  obtain x rest where xs: "xs = x # rest" using assms(2) by (cases xs) auto
  have nx: "\<not> fnan ar x" using assms(3) xs by simp
  have xx: "fge ar x x" using order_total[OF assms(1) nx nx] by blast
  have r: "argmin ar xs = argmin_from ar x 0 1 rest" by (simp add: xs argmin_def)
  have "argmin ar xs < 1 + length rest \<and>
     (\<forall>t < 1 + length rest. fge ar (([x] @ rest) ! t) (([x] @ rest) ! argmin ar xs)) \<and>
     (\<forall>t<argmin ar xs. \<not> fge ar (([x] @ rest) ! argmin ar xs) (([x] @ rest) ! t))"
    by (rule argmin_from_least[OF assms(1) _ _ _ _ _ _ r]) (use assms(3) xs xx in auto)
  then show "argmin ar xs < length xs"
    and "\<forall>t<length xs. fge ar (xs ! t) (xs ! argmin ar xs)"
    and "\<forall>t<argmin ar xs. \<not> fge ar (xs ! argmin ar xs) (xs ! t)"
    by (simp_all add: xs)
qed

text \<open>With a NaN among the entries the result is the first NaN.\<close>

lemma argmin_from_nan:
  assumes ol: "order_laws ar"
  shows "\<not> fnan ar mp \<Longrightarrow> n < length xs \<Longrightarrow> fnan ar (xs ! n) \<Longrightarrow>
   \<forall>t<n. \<not> fnan ar (xs ! t) \<Longrightarrow> argmin_from ar mp mi i xs = i + n"
proof (induction xs arbitrary: mp mi i n)
  case Nil
  then show ?case by simp
next
  case (Cons x xs)
  show ?case
  proof (cases n)
    case 0
    with Cons.prems have x: "fnan ar x" by simp
    then have "\<not> fge ar x mp" using order_nan[OF ol] by blast
    then show ?thesis using Cons.prems(1) 0 x by (cases xs) auto
  next
    case (Suc n')
    from Cons.prems Suc have x: "\<not> fnan ar x" by auto
    have n': "n' < length xs" "fnan ar (xs ! n')" "\<forall>t<n'. \<not> fnan ar (xs ! t)"
      using Cons.prems Suc by auto
    have a: "argmin_from ar x i (Suc i) xs = Suc i + n'" by (rule Cons.IH[OF x n'])
    have b: "argmin_from ar mp mi (Suc i) xs = Suc i + n'"
      by (rule Cons.IH[OF Cons.prems(1) n'])
    show ?thesis using a b Cons.prems(1) Suc by simp
  qed
qed

lemma argmin_first_nan:
  assumes "order_laws ar" "d0 < length xs" "fnan ar (xs ! d0)" "\<forall>t<d0. \<not> fnan ar (xs ! t)"
  shows "argmin ar xs = d0"
proof (cases xs)
  case Nil
  with assms show ?thesis by simp
next
  case (Cons x rest)
  show ?thesis
  proof (cases d0)
    case 0
    with assms Cons have "fnan ar x" by simp
    then show ?thesis using Cons 0 by (cases rest) (auto simp: argmin_def)
  next
    case (Suc n)
    with assms Cons have "\<not> fnan ar x" "n < length rest" "fnan ar (rest ! n)"
      "\<forall>t<n. \<not> fnan ar (rest ! t)"
      by auto
    from argmin_from_nan[OF assms(1) this, of 0 1] show ?thesis
      using Cons Suc by (simp add: argmin_def)
  qed
qed

subsection \<open>Shapes of the arrays of one pass\<close>

lemma rect_row_length: "rect data \<Longrightarrow> t < length data \<Longrightarrow> length (data ! t) = ncols data"
  by (simp add: rect_def list_all_length)

lemma all_dist_Inr_lengths:
  "all_dist ar c data = Inr v \<Longrightarrow> 2 \<le> length data \<and> 2 \<le> length c"
  by (auto simp: all_dist_def split: if_splits)

lemma all_dist_length:
  "all_dist ar c data = Inr v \<Longrightarrow> rect data \<Longrightarrow> length v = ncols data"
proof -
  assume v: "all_dist ar c data = Inr v" and r: "rect data"
  from v have len: "2 \<le> length data" by (auto simp: all_dist_def split: if_splits)
  have "length (data ! 0) = ncols data" "length (data ! 1) = ncols data"
    by (rule rect_row_length[OF r], use len in auto)+
  with v show ?thesis by (auto simp: all_dist_def split: if_splits)
qed

text \<open>An entry of the result of \<open>all_dist\<close> is the distance of that point.\<close>

lemma all_dist_nth:
  assumes "all_dist ar c data = Inr v" "rect data" "j < ncols data"
  shows "v ! j = point_dist ar data j c"
proof -
  from all_dist_Inr_lengths[OF assms(1)] have l: "2 \<le> length data" by simp
  have len: "length (data ! 0) = ncols data" "length (data ! 1) = ncols data"
    by (rule rect_row_length[OF assms(2)], use l in auto)+
  show ?thesis
    using assms(1,3) len by (auto simp: all_dist_def point_dist_def split: if_splits)
qed

lemma set_row_length: "set_row sample v = Inr row \<Longrightarrow> length row = sample"
  by (auto simp: set_row_def split: if_splits)

lemma dist_rows_Inr:
  "dist_rows ar sample data cs ds = Inr rows \<Longrightarrow>
   length rows = length ds \<and>
   (\<forall>t<length ds. ds ! t < length cs \<and>
      (\<exists>v. all_dist ar (cs ! (ds ! t)) data = Inr v \<and> set_row sample v = Inr (rows ! t)))"
proof (induction ds arbitrary: rows)
  case Nil
  then show ?case by simp
next
  case (Cons d ds)
  from Cons.prems obtain v row rest where
    d: "d < length cs" and v: "all_dist ar (cs ! d) data = Inr v"
    and row: "set_row sample v = Inr row"
    and rest: "dist_rows ar sample data cs ds = Inr rest" and rows: "rows = row # rest"
    by (auto split: if_splits sum.splits)
  from Cons.IH[OF rest] d v row rows show ?case
    by (auto simp: nth_Cons split: nat.splits)
qed

text \<open>The distance matrix has \<open>sample\<close> columns.\<close>

lemma dist_rows_width:
  assumes "dist_rows ar sample data cs ds = Inr rows"
  shows "list_all (\<lambda>row. length row = sample) rows"
proof -
  have "length (rows ! t) = sample" if "t < length rows" for t
  proof -
    from dist_rows_Inr[OF assms] that obtain v where "set_row sample v = Inr (rows ! t)"
      by auto
    then show ?thesis by (rule set_row_length)
  qed
  then show ?thesis by (simp add: list_all_length)
qed

lemma dist_rows_ncols:
  assumes "dist_rows ar sample data cs ds = Inr rows" "rows \<noteq> []"
  shows "ncols rows = sample"
  using dist_rows_width[OF assms(1)] assms(2) by (cases rows) (auto simp: ncols_def)

lemma dist_rows_ok:
  "\<forall>d\<in>set ds. d < length cs \<and> 2 \<le> length (cs ! d) \<Longrightarrow> 2 \<le> length data \<Longrightarrow> rect data \<Longrightarrow>
   ncols data = sample \<Longrightarrow> \<exists>rows. dist_rows ar sample data cs ds = Inr rows"
proof (induction ds)
  case Nil
  then show ?case by simp
next
  case (Cons d ds)
  then obtain rows where rows: "dist_rows ar sample data cs ds = Inr rows" by auto
  from Cons.prems have d: "d < length cs" "2 \<le> length (cs ! d)" by auto
  with Cons.prems obtain v where v: "all_dist ar (cs ! d) data = Inr v"
    by (auto simp: all_dist_def)
  have "length v = sample" using all_dist_length[OF v] Cons.prems by simp
  then have "set_row sample v = Inr v" by (simp add: set_row_def)
  with rows v d show ?case by simp
qed

lemma argmin_axis0_Inr:
  "argmin_axis0 ar distances = Inr winners \<Longrightarrow>
   distances \<noteq> [] \<and> length winners = ncols distances \<and>
   (\<forall>j<ncols distances. winners ! j = argmin ar (map (\<lambda>row. row ! j) distances))"
  by (auto simp: argmin_axis0_def split: if_splits)

lemma make_clusters_Inr:
  "make_clusters data winners is = Inr cl \<Longrightarrow>
   length cl = length is \<and> (is \<noteq> [] \<longrightarrow> length winners = ncols data) \<and>
   (\<forall>t<length is. cl ! t =
      map (\<lambda>row. map fst (filter (\<lambda>(x, w). w = is ! t) (zip row winners))) data)"
proof (induction "is" arbitrary: cl)
  case Nil
  then show ?case by simp
next
  case (Cons i "is")
  from Cons.prems obtain c rest where
    c: "select_cols data winners i = Inr c"
    and rest: "make_clusters data winners is = Inr rest" and cl: "cl = c # rest"
    by (auto split: sum.splits)
  from c have len: "length winners = ncols data"
    and ceq: "c = map (\<lambda>row. map fst (filter (\<lambda>(x, w). w = i) (zip row winners))) data"
    by (auto simp: select_cols_def split: if_splits)
  from Cons.IH[OF rest] len ceq cl show ?case
    by (auto simp: nth_Cons split: nat.splits)
qed

lemma make_clusters_ok:
  "length winners = ncols data \<Longrightarrow> \<exists>cl. make_clusters data winners is = Inr cl"
  by (induction "is") (auto simp: select_cols_def)

lemma iteration_Inr:
  assumes "iteration ar sample data k cs = Inr (winners, clusters, new)"
  shows "1 \<le> k" and "length winners = sample" and "ncols data = sample"
    and "\<forall>j<sample. winners ! j < nat k"
    and "length clusters = nat k" and "new = map (average ar) clusters"
    and "nat k \<le> length cs"
    and "\<exists>distances. dist_rows ar sample data cs [0..<nat k] = Inr distances \<and>
           argmin_axis0 ar distances = Inr winners \<and> ncols distances = sample"
    and "make_clusters data winners [0..<nat k] = Inr clusters"
proof -
  from assms obtain distances where k0: "0 \<le> k"
    and dr: "dist_rows ar sample data cs [0..<nat k] = Inr distances"
    and am: "argmin_axis0 ar distances = Inr winners"
    and mc: "make_clusters data winners [0..<nat k] = Inr clusters"
    and new: "new = map (average ar) clusters"
    by (auto simp: iteration_def split: if_splits sum.splits)
  note D = dist_rows_Inr[OF dr] and A = argmin_axis0_Inr[OF am] and M = make_clusters_Inr[OF mc]
  from D A have kpos: "0 < nat k" by (cases distances) auto
  then show "1 \<le> k" by simp
  have w: "ncols distances = sample" using dist_rows_ncols[OF dr] A by simp
  show lw: "length winners = sample" using A w by simp
  show "ncols data = sample" using M lw kpos by simp
  show "\<forall>j<sample. winners ! j < nat k"
  proof (intro allI impI)
    fix j assume "j < sample"
    then have "winners ! j = argmin ar (map (\<lambda>row. row ! j) distances)" using A w by simp
    moreover have "argmin ar (map (\<lambda>row. row ! j) distances)
        < length (map (\<lambda>row. row ! j) distances)"
      by (rule argmin_bound) (use A in simp)
    ultimately show "winners ! j < nat k" using D by simp
  qed
  show "length clusters = nat k" using M by simp
  show "new = map (average ar) clusters" by fact
  show "nat k \<le> length cs"
  proof -
    have "\<forall>t<nat k. t < length cs" using D by simp
    then show ?thesis by (meson not_le_imp_less less_irrefl)
  qed
  show "\<exists>distances. dist_rows ar sample data cs [0..<nat k] = Inr distances \<and>
           argmin_axis0 ar distances = Inr winners \<and> ncols distances = sample"
    using dr am w by blast
  show "make_clusters data winners [0..<nat k] = Inr clusters" by fact
qed

lemma iteration_ok:
  assumes "rect data" "2 \<le> length data" "ncols data = sample" "1 \<le> k"
    "nat k \<le> length cs" "\<forall>d<nat k. 2 \<le> length (cs ! d)"
  shows "\<exists>winners clusters new. iteration ar sample data k cs = Inr (winners, clusters, new)"
proof -
  have "\<forall>d\<in>set [0..<nat k]. d < length cs \<and> 2 \<le> length (cs ! d)" using assms by auto
  from dist_rows_ok[OF this assms(2,1,3)] obtain rows
    where rows: "dist_rows ar sample data cs [0..<nat k] = Inr rows" by blast
  from dist_rows_Inr[OF rows] assms(4) have ne: "rows \<noteq> []" by auto
  then obtain winners where w: "argmin_axis0 ar rows = Inr winners"
    and lw: "length winners = ncols rows" by (auto simp: argmin_axis0_def)
  have "length winners = sample" using lw dist_rows_ncols[OF rows ne] by simp
  from make_clusters_ok[of winners data "[0..<nat k]"] this assms(3) obtain cl
    where "make_clusters data winners [0..<nat k] = Inr cl" by auto
  with rows w assms(4) show ?thesis by (simp add: iteration_def)
qed

lemma iteration_centroid_length:
  assumes "iteration ar sample data k cs = Inr (winners, clusters, new)" "d < nat k"
  shows "2 \<le> length (cs ! d)" "2 \<le> length data"
proof -
  from iteration_Inr(8)[OF assms(1)] obtain distances
    where "dist_rows ar sample data cs [0..<nat k] = Inr distances" by blast
  from dist_rows_Inr[OF this] assms(2) obtain v where "all_dist ar (cs ! d) data = Inr v"
    by auto
  from all_dist_Inr_lengths[OF this] show "2 \<le> length (cs ! d)" "2 \<le> length data" by auto
qed

lemma iteration_cluster_nth:
  assumes "iteration ar sample data k cs = Inr (winners, clusters, new)" "i < nat k"
  shows "clusters ! i = map (\<lambda>row. map fst (filter (\<lambda>(x, w). w = i) (zip row winners))) data"
    and "new ! i = average ar (clusters ! i)"
proof -
  note M = make_clusters_Inr[OF iteration_Inr(9)[OF assms(1)]]
  from M assms(2)
  show "clusters ! i = map (\<lambda>row. map fst (filter (\<lambda>(x, w). w = i) (zip row winners))) data"
    by simp
  from iteration_Inr(5,6)[OF assms(1)] assms(2) show "new ! i = average ar (clusters ! i)"
    by simp
qed

lemma iteration_new_length:
  assumes "iteration ar sample data k cs = Inr (winners, clusters, new)" "d < nat k"
  shows "length (new ! d) = length data"
  using iteration_cluster_nth[OF assms] by (simp add: average_def)

text \<open>An entry of the distance matrix, and its column for one point.\<close>

lemma distance_entry:
  assumes "dist_rows ar sample data cs ds = Inr distances" "rect data" "ncols data = sample"
    "t < length ds"
  shows "\<exists>v. all_dist ar (cs ! (ds ! t)) data = Inr v \<and> distances ! t = v"
proof -
  from dist_rows_Inr[OF assms(1)] assms(4) obtain v
    where v: "all_dist ar (cs ! (ds ! t)) data = Inr v"
      and r: "set_row sample v = Inr (distances ! t)"
    by blast
  have "length v = sample" using all_dist_length[OF v assms(2)] assms(3) by simp
  with r have "distances ! t = v" by (simp add: set_row_def)
  with v show ?thesis by blast
qed

lemma distance_column:
  assumes it: "iteration ar sample data k cs = Inr (winners, clusters, new)"
    and "rect data" and j: "j < sample"
  shows "winners ! j = argmin ar (map (\<lambda>d. point_dist ar data j (cs ! d)) [0..<nat k])"
    and "\<exists>distances. dist_rows ar sample data cs [0..<nat k] = Inr distances \<and>
           (\<forall>d<nat k. distances ! d ! j = point_dist ar data j (cs ! d))"
proof -
  from iteration_Inr(8)[OF it] obtain distances
    where dr: "dist_rows ar sample data cs [0..<nat k] = Inr distances"
      and am: "argmin_axis0 ar distances = Inr winners"
      and w: "ncols distances = sample" by blast
  note N = iteration_Inr(3)[OF it]
  have ld: "length distances = nat k" using dist_rows_Inr[OF dr] by simp
  have e: "distances ! d ! j = point_dist ar data j (cs ! d)" if d: "d < nat k" for d
  proof -
    from distance_entry[OF dr assms(2) N, of d] d obtain v
      where v: "all_dist ar (cs ! d) data = Inr v" "distances ! d = v" by auto
    from all_dist_nth[OF v(1) assms(2), of j] j N v(2) show ?thesis by simp
  qed
  then have "map (\<lambda>row. row ! j) distances
      = map (\<lambda>d. point_dist ar data j (cs ! d)) [0..<nat k]"
    using ld by (simp add: list_eq_iff_nth_eq)
  then show "winners ! j = argmin ar (map (\<lambda>d. point_dist ar data j (cs ! d)) [0..<nat k])"
    using argmin_axis0_Inr[OF am] j w by simp
  show "\<exists>distances. dist_rows ar sample data cs [0..<nat k] = Inr distances \<and>
           (\<forall>d<nat k. distances ! d ! j = point_dist ar data j (cs ! d))"
    using dr e by blast
qed

text \<open>
  The winner of a point: the first least of the computed distances when none is NaN,
  the first NaN otherwise.
\<close>

lemma winner_least:
  assumes it: "iteration ar sample data k cs = Inr (winners, clusters, new)"
    and "rect data" and ol: "order_laws ar" and j: "j < sample"
    and nn: "\<forall>d<nat k. \<not> fnan ar (point_dist ar data j (cs ! d))"
  shows "\<forall>d<nat k. fge ar (point_dist ar data j (cs ! d))
                        (point_dist ar data j (cs ! (winners ! j)))"
    and "\<forall>d<winners ! j. \<not> fge ar (point_dist ar data j (cs ! (winners ! j)))
                                 (point_dist ar data j (cs ! d))"
proof -
  let ?xs = "map (\<lambda>d. point_dist ar data j (cs ! d)) [0..<nat k]"
  have w: "winners ! j = argmin ar ?xs" by (rule distance_column(1)[OF it assms(2) j])
  have ne: "?xs \<noteq> []" using iteration_Inr(1)[OF it] by simp
  have nn': "\<forall>x\<in>set ?xs. \<not> fnan ar x" using nn by auto
  note A = argmin_least[OF ol ne nn', folded w]
  from A(1) have wk: "winners ! j < nat k" by simp
  from A(2) wk show "\<forall>d<nat k. fge ar (point_dist ar data j (cs ! d))
                        (point_dist ar data j (cs ! (winners ! j)))" by simp
  from A(3) wk show "\<forall>d<winners ! j. \<not> fge ar (point_dist ar data j (cs ! (winners ! j)))
                                 (point_dist ar data j (cs ! d))" by simp
qed

lemma winner_first_nan:
  assumes it: "iteration ar sample data k cs = Inr (winners, clusters, new)"
    and "rect data" and ol: "order_laws ar" and j: "j < sample"
    and ex: "\<exists>d<nat k. fnan ar (point_dist ar data j (cs ! d))"
  shows "fnan ar (point_dist ar data j (cs ! (winners ! j)))"
    and "\<forall>d<winners ! j. \<not> fnan ar (point_dist ar data j (cs ! d))"
proof -
  let ?xs = "map (\<lambda>d. point_dist ar data j (cs ! d)) [0..<nat k]"
  let ?Q = "\<lambda>d. d < nat k \<and> fnan ar (point_dist ar data j (cs ! d))"
  define d0 where "d0 = (LEAST d. ?Q d)"
  from ex have d0: "?Q d0" unfolding d0_def by (rule LeastI_ex)
  have least: "\<not> fnan ar (point_dist ar data j (cs ! t))" if "t < d0" for t
    using not_less_Least[of t ?Q] that d0 unfolding d0_def by auto
  have w: "winners ! j = argmin ar ?xs" by (rule distance_column(1)[OF it assms(2) j])
  have "argmin ar ?xs = d0"
    by (rule argmin_first_nan[OF ol]) (use d0 least in auto)
  with w have "winners ! j = d0" by simp
  with d0 least show "fnan ar (point_dist ar data j (cs ! (winners ! j)))"
    and "\<forall>d<winners ! j. \<not> fnan ar (point_dist ar data j (cs ! d))" by auto
qed

subsection \<open>The loop ends with the result of its last pass\<close>

lemma loop_unfold_continue:
  "iteration ar sample data k cs = Inr (w, cl, new) \<Longrightarrow> \<not> converged ar cs new \<Longrightarrow>
   cluster_loop ar sample data k cs = cluster_loop ar sample data k new"
  by (subst cluster_loop.simps) simp

lemma loop_unfold_stop:
  "iteration ar sample data k cs = Inr (w, cl, new) \<Longrightarrow> converged ar cs new \<Longrightarrow>
   cluster_loop ar sample data k cs = Some (Inr (w, cl, new))"
  by (subst cluster_loop.simps) simp


lemma loop_reaches_first:
  assumes "loop_reaches ar sample data k c1 c"
    and "iteration ar sample data k c0 = Inr (w, cl, c1)" "\<not> converged ar c0 c1"
  shows "loop_reaches ar sample data k c0 c"
  using assms(1)
proof (induction rule: loop_reaches.induct)
  case start
  show ?case by (rule loop_reaches.step[OF loop_reaches.start assms(2,3)])
next
  case (step c winners clusters c')
  show ?case by (rule loop_reaches.step[OF step.IH step.hyps(2,3)])
qed


lemma cluster_loop_final_aux:
  assumes "cluster_loop ar sample data k cs = Some y"
  shows "\<forall>winners clusters new. y = Inr (winners, clusters, new) \<longrightarrow>
     (\<exists>prev. loop_reaches ar sample data k cs prev \<and>
        iteration ar sample data k prev = Inr (winners, clusters, new) \<and>
        converged ar prev new)"
proof -
  let ?P = "\<lambda>(ar::'a arith) (sample::nat) (data::'a matrix) (k::int) (cs::'a matrix) y.
     \<forall>winners clusters new. y = Inr (winners, clusters, new) \<longrightarrow>
       (\<exists>prev. loop_reaches ar sample data k cs prev \<and>
          iteration ar sample data k prev = Inr (winners, clusters, new) \<and>
          converged ar prev new)"
  have step: "?P ar sample data k centroids y"
    if IH: "\<And>ar sample data k cs y. loop ar sample data k cs = Some y
              \<Longrightarrow> ?P ar sample data k cs y"
    and body: "(case iteration ar sample data k centroids of
                  Inl e \<Rightarrow> Some (Inl e)
                | Inr (winners, clusters, new_centroids) \<Rightarrow>
                    if converged ar centroids new_centroids
                    then Some (Inr (winners, clusters, new_centroids))
                    else loop ar sample data k new_centroids) = Some y"
    for loop and ar :: "'a arith" and sample data k centroids y
  proof (cases "iteration ar sample data k centroids")
    case (Inl e)
    with body show ?thesis by auto
  next
    case (Inr r)
    obtain w cl n where r: "r = (w, cl, n)" by (cases r) auto
    show ?thesis
    proof (cases "converged ar centroids n")
      case True
      with body Inr r loop_reaches.start[of ar sample data k centroids] show ?thesis by auto
    next
      case False
      with body Inr r have "loop ar sample data k n = Some y" by simp
      from IH[OF this] loop_reaches_first[OF _ Inr[unfolded r] False]
      show ?thesis by blast
    qed
  qed
  show ?thesis by (rule cluster_loop.raw_induct[where P = ?P, OF step assms])
qed

lemma cluster_loop_final:
  "cluster_loop ar sample data k cs = Some (Inr (winners, clusters, new)) \<Longrightarrow>
   \<exists>prev. loop_reaches ar sample data k cs prev \<and>
     iteration ar sample data k prev = Inr (winners, clusters, new) \<and> converged ar prev new"
  using cluster_loop_final_aux by blast


lemma init_centroids_ok:
  "\<forall>r\<in>set rs. r < ncols data \<Longrightarrow> rs \<noteq> [] \<longrightarrow> 0 < sample \<Longrightarrow>
   init_centroids sample data rs = Inr (map (\<lambda>r. map (\<lambda>row. row ! r) data) rs)"
  by (induction rs) (auto simp: column_def)


subsection \<open>An empty cluster\<close>

lemma filter_zip_none:
  "i \<notin> set ws \<Longrightarrow> filter (\<lambda>(x, w). w = i) (zip row ws) = []"
  by (auto simp: filter_empty_conv dest: set_zip_rightD)

lemma empty_cluster_centroid:
  assumes "iteration ar sample data k cs = Inr (winners, clusters, new)" "i < nat k"
    "i \<notin> set winners"
  shows "clusters ! i = map (\<lambda>row. []) data"
    and "new ! i = replicate (length data) (fmean ar [])"
proof -
  show c: "clusters ! i = map (\<lambda>row. []) data"
    using iteration_cluster_nth(1)[OF assms(1,2)] assms(3) by (simp add: filter_zip_none)
  then have "average ar (clusters ! i) = map (\<lambda>row. fmean ar []) data"
    by (simp add: average_def comp_def)
  then show "new ! i = replicate (length data) (fmean ar [])"
    using iteration_cluster_nth(2)[OF assms(1,2)] by (simp add: map_replicate_const)
qed

lemma nan_row_not_converged:
  assumes nl: "nan_laws ar"
    and "i < length cs" "i < length new" "cs ! i \<noteq> []" "new ! i \<noteq> []" "fnan ar (new ! i ! 0)"
  shows "\<not> converged ar cs new"
proof -
  have row: "mat_sub ar cs new ! i = map2 (fsub ar) (cs ! i) (new ! i)"
    using assms(2,3) by (simp add: mat_sub_def)
  obtain a as b bs where ab: "cs ! i = a # as" "new ! i = b # bs"
    using assms(4,5) by (cases "cs ! i"; cases "new ! i") auto
  with assms(6) have "fnan ar b" by simp
  then have "fnan ar (fsub ar a b)" using nl unfolding nan_laws_def by blast
  moreover have "fsub ar a b \<in> set (mat_sub ar cs new ! i)" using row ab by simp
  moreover have "i < length (mat_sub ar cs new)" using assms(2,3) by (simp add: mat_sub_def)
  ultimately have "\<exists>x\<in>set (concat (mat_sub ar cs new)). fnan ar x"
    by (metis nth_mem set_concat UN_I)
  then have "fnan ar (fsum ar (concat (mat_sub ar cs new)))"
    using nl unfolding nan_laws_def by blast
  then show ?thesis using nl unfolding nan_laws_def converged_def by blast
qed

lemma empty_cluster_not_converged:
  assumes "nan_laws ar"
    and "iteration ar sample data k cs = Inr (winners, clusters, new)" "i < nat k"
    "i \<notin> set winners"
  shows "\<not> converged ar cs new"
proof (rule nan_row_not_converged[OF assms(1), of i])
  show "i < length cs" using iteration_Inr(7)[OF assms(2)] assms(3) by simp
  show "i < length new" using iteration_Inr(5,6)[OF assms(2)] assms(3) by simp
  show "cs ! i \<noteq> []" using iteration_centroid_length(1)[OF assms(2,3)] by auto
  have n: "new ! i = replicate (length data) (fmean ar [])"
    by (rule empty_cluster_centroid(2)[OF assms(2-4)])
  have d: "2 \<le> length data" by (rule iteration_centroid_length(2)[OF assms(2,3)])
  show "new ! i \<noteq> []" using n d by auto
  have "fnan ar (fmean ar [])" using assms(1) unfolding nan_laws_def by blast
  then show "fnan ar (new ! i ! 0)" using n d by (cases data) auto
qed

subsection \<open>Pairwise distinct draws for as many centroids as points\<close>

lemma filter_upt_eq: "r < n \<Longrightarrow> filter (\<lambda>p. p = r) [0..<n] = [r]"
  by (induction n) (auto simp: less_Suc_eq)

lemma filter_zip_single:
  assumes "length row = length ws" "r < length ws" "\<forall>p<length ws. (ws ! p = d) = (p = r)"
  shows "map fst (filter (\<lambda>(x, w). w = d) (zip row ws)) = [row ! r]"
proof -
  let ?g = "\<lambda>p. (row ! p, ws ! p)"
  have z: "zip row ws = map ?g [0..<length ws]"
    by (rule nth_equalityI) (use assms(1) in auto)
  have c: "(\<lambda>(x, w). w = d) \<circ> ?g = (\<lambda>p. ws ! p = d)"
    by (simp add: fun_eq_iff)
  have "filter (\<lambda>(x, w). w = d) (map ?g [0..<length ws])
        = map ?g (filter ((\<lambda>(x, w). w = d) \<circ> ?g) [0..<length ws])"
    by (rule filter_map)
  also have "\<dots> = map ?g (filter (\<lambda>p. ws ! p = d) [0..<length ws])"
    by (simp only: c)
  also have "filter (\<lambda>p. ws ! p = d) [0..<length ws] = filter (\<lambda>p. p = r) [0..<length ws]"
    by (rule filter_cong) (use assms(3) in auto)
  also have "\<dots> = [r]" by (rule filter_upt_eq[OF assms(2)])
  finally have "filter (\<lambda>(x, w). w = d) (map ?g [0..<length ws]) = [?g r]" by simp
  then have "filter (\<lambda>(x, w). w = d) (zip row ws) = [?g r]" by (simp only: z)
  then show ?thesis by simp
qed

lemma distinct_draws_one_iteration:
  assumes "rect data" "ncols data = sample"
    and ol: "order_laws ar"
    and k: "k = int sample"
    and draws: "\<forall>i<sample. rng i < sample"
    and inj: "inj_on rng {..<sample}"
    and sep: "\<forall>p<sample. \<forall>q<sample.
        \<not> fnan ar (point_dist ar data p (map (\<lambda>row. row ! q) data)) \<and>
        (p \<noteq> q \<longrightarrow> \<not> fge ar (point_dist ar data p (map (\<lambda>row. row ! p) data))
                            (point_dist ar data p (map (\<lambda>row. row ! q) data)))"
    and one: "\<forall>row\<in>set data. \<forall>x\<in>set row. fmean ar [x] = x"
    and cs: "cs = map (\<lambda>d. map (\<lambda>row. row ! rng d) data) [0..<sample]"
    and it: "iteration ar sample data k cs = Inr (w, cl, new)"
  shows "new = cs"
    and "\<forall>d<sample. w ! rng d = d \<and> cl ! d = map (\<lambda>row. [row ! rng d]) data"
proof -
  have nk: "nat k = sample" using k by simp
  have csd: "cs ! d = map (\<lambda>row. row ! rng d) data" if "d < sample" for d
    using that by (simp add: cs)
  have surj: "\<exists>d<sample. rng d = p" if "p < sample" for p
  proof -
    have "rng ` {..<sample} \<subseteq> {..<sample}" using draws by auto
    moreover have "card (rng ` {..<sample}) = card {..<sample}" by (rule card_image[OF inj])
    ultimately have "rng ` {..<sample} = {..<sample}" by (intro card_subset_eq) auto
    with that show ?thesis by (metis imageE lessThan_iff)
  qed
  have win: "w ! rng d = d" if d: "d < sample" for d
  proof -
    let ?p = "rng d"
    let ?m = "w ! ?p"
    have p: "?p < sample" using draws d by simp
    have m: "?m < sample" using iteration_Inr(4)[OF it] p nk by simp
    have rm: "rng ?m < sample" using draws m by simp
    have nn: "\<forall>d'<nat k. \<not> fnan ar (point_dist ar data ?p (cs ! d'))"
      using sep p draws csd nk by simp
    have "fge ar (point_dist ar data ?p (cs ! d)) (point_dist ar data ?p (cs ! ?m))"
      using winner_least(1)[OF it assms(1) ol p nn] d nk by simp
    then have "fge ar (point_dist ar data ?p (map (\<lambda>row. row ! ?p) data))
                      (point_dist ar data ?p (map (\<lambda>row. row ! rng ?m) data))"
      using csd[OF d] csd[OF m] by simp
    with sep p rm have "?p = rng ?m" by blast
    then show ?thesis using inj d m by (auto simp: inj_on_def)
  qed
  have lw: "length w = sample" by (rule iteration_Inr(2)[OF it])
  have iff: "\<forall>p<length w. (w ! p = d) = (p = rng d)" if d: "d < sample" for d
  proof (intro allI impI)
    fix p assume "p < length w"
    then have "p < sample" using lw by simp
    from surj[OF this] obtain d' where d': "d' < sample" "rng d' = p" by blast
    show "(w ! p = d) = (p = rng d)" using win[OF d] win[OF d'(1)] d'(2) by auto
  qed
  have cld: "cl ! d = map (\<lambda>row. [row ! rng d]) data" if d: "d < sample" for d
  proof -
    have "cl ! d = map (\<lambda>row. map fst (filter (\<lambda>(x, w'). w' = d) (zip row w))) data"
      using iteration_cluster_nth(1)[OF it] d nk by simp
    also have "\<dots> = map (\<lambda>row. [row ! rng d]) data"
    proof (rule map_cong[OF refl])
      fix row assume "row \<in> set data"
      then have "length row = length w"
        using assms(1,2) lw by (auto simp: rect_def list_all_iff)
      then show "map fst (filter (\<lambda>(x, w'). w' = d) (zip row w)) = [row ! rng d]"
        by (rule filter_zip_single) (use draws d lw iff[OF d] in auto)
    qed
    finally show ?thesis .
  qed
  from win cld show "\<forall>d<sample. w ! rng d = d \<and> cl ! d = map (\<lambda>row. [row ! rng d]) data"
    by blast
  have "new ! d = cs ! d" if d: "d < sample" for d
  proof -
    have rd: "rng d < ncols data" using draws d assms(2) by simp
    have "fmean ar [row ! rng d] = row ! rng d" if "row \<in> set data" for row
    proof -
      have "rng d < length row" using that assms(1) rd by (auto simp: rect_def list_all_iff)
      then have "row ! rng d \<in> set row" by simp
      with one that show ?thesis by blast
    qed
    then have "average ar (map (\<lambda>row. [row ! rng d]) data) = map (\<lambda>row. row ! rng d) data"
      by (simp add: average_def)
    then show ?thesis
      using iteration_cluster_nth(2)[OF it] d nk cld[OF d] csd[OF d] by simp
  qed
  moreover have "length new = sample" using iteration_Inr(5,6)[OF it] nk by simp
  moreover have "length cs = sample" by (simp add: cs)
  ultimately show "new = cs" by (simp add: list_eq_iff_nth_eq)
qed

subsection \<open>The initial centroids, and more points than \<open>sample\<close>\<close>



section \<open>The arithmetic without rounding\<close>

lemma exact_sel [simp]:
  "fsub exact = xsub" "fadd exact = xadd" "fsq exact = xsq" "fsqrt exact = xsqrt"
  "fsum exact = xsum" "fmean exact = xmean" "fge exact = xge" "fnan exact = isnan"
  "feq0 exact = xeq0"
  by (simp_all add: exact_def)

lemma xadd_NaN_right [simp]: "xadd x NaN = NaN"
  by (cases x) simp_all

lemma xsub_NaN_right [simp]: "xsub x NaN = NaN"
  by (cases x) simp_all

lemma isnan_iff: "isnan x \<longleftrightarrow> x = NaN"
  by (cases x) simp_all

lemma xsum_Cons: "xsum (x # xs) = xadd x (xsum xs)"
  by (simp add: xsum_def)

lemma xsum_nan: "NaN \<in> set xs \<Longrightarrow> xsum xs = NaN"
  by (induction xs) (auto simp: xsum_Cons)

lemma xmean_Nil [simp]: "xmean [] = NaN"
  by (simp add: xmean_def xsum_def)

lemma exact_nan_laws: "nan_laws exact"
  unfolding nan_laws_def
proof (intro conjI allI impI)
  show "fnan exact (fmean exact [])" by simp
  fix x y :: fl
  assume "fnan exact y"
  then show "fnan exact (fsub exact x y)" by (simp add: isnan_iff)
next
  fix xs :: "fl list"
  assume "\<exists>x\<in>set xs. fnan exact x"
  then have "NaN \<in> set xs" by (auto simp: isnan_iff)
  then show "fnan exact (fsum exact xs)" by (simp add: xsum_nan)
next
  fix x :: fl
  assume "fnan exact x"
  then show "\<not> feq0 exact x" by (simp add: isnan_iff)
qed

lemma exact_order_laws: "order_laws exact"
  unfolding order_laws_def
proof (intro conjI allI impI)
  fix x y :: fl
  assume "fnan exact x \<or> fnan exact y"
  then show "\<not> fge exact x y" by (cases x; cases y) auto
next
  fix x y :: fl
  assume "\<not> fnan exact x \<and> \<not> fnan exact y"
  then show "fge exact x y \<or> fge exact y x" by (cases x; cases y) auto
next
  fix x y z :: fl
  assume "fge exact x y \<and> fge exact y z"
  then show "fge exact x z" by (cases x; cases y; cases z) auto
qed

subsection \<open>A NaN centroid wins every point\<close>

lemma map_nth_01:
  "2 \<le> length xs \<Longrightarrow> map f xs ! 0 = f (xs ! 0) \<and> map f xs ! 1 = f (xs ! 1)"
  by (cases xs; cases "tl xs") auto

lemma finite_entry:
  "finite_mat data \<Longrightarrow> rect data \<Longrightarrow> t < length data \<Longrightarrow> j < ncols data
   \<Longrightarrow> \<not> isnan (data ! t ! j)"
  by (simp add: finite_mat_def list_all_length rect_row_length)

lemma point_dist_nan: "nanc c \<Longrightarrow> isnan (point_dist exact data j c)"
proof -
  assume n: "nanc c"
  show ?thesis
  proof (cases "isnan (c ! 0)")
    case True
    then have "c ! 0 = NaN" by (simp add: isnan_iff)
    then show ?thesis by (simp add: point_dist_def del: One_nat_def)
  next
    case False
    with n have "c ! 1 = NaN" by (simp add: nanc_def isnan_iff)
    then show ?thesis by (simp add: point_dist_def del: One_nat_def)
  qed
qed

lemma xsqrt_fin:
  "\<not> isnan x \<Longrightarrow> \<not> isnan y \<Longrightarrow> \<not> isnan a \<Longrightarrow> \<not> isnan b \<Longrightarrow>
   xsqrt (xadd (xsq (xsub x a)) (xsq (xsub y b))) =
   Fin (sqrt ((val x - val a) * (val x - val a) + (val y - val b) * (val y - val b)))"
  by (cases x; cases y; cases a; cases b) (simp_all add: not_less)

lemma point_dist_fin:
  assumes "rect data" "finite_mat data" "2 \<le> length data" "\<not> nanc c" "j < ncols data"
  shows "\<not> isnan (point_dist exact data j c)"
proof -
  have l0: "0 < length data" "1 < length data" using assms(3) by auto
  have fin: "\<not> isnan (data ! 0 ! j)" "\<not> isnan (data ! 1 ! j)"
    using finite_entry[OF assms(2,1) l0(1) assms(5)] finite_entry[OF assms(2,1) l0(2) assms(5)]
    by auto
  have c: "\<not> isnan (c ! 0)" "\<not> isnan (c ! 1)" using assms(4) by (auto simp: nanc_def)
  show ?thesis
    unfolding point_dist_def exact_sel by (subst xsqrt_fin[OF fin(1,2) c]) simp
qed

lemma nan_centroid_winners:
  assumes it: "iteration exact sample data k cs = Inr (winners, clusters, new)"
    and "rect data" "finite_mat data"
    and ex: "\<exists>d<nat k. nanc (cs ! d)"
  shows "\<exists>d0<nat k. \<forall>j<sample. winners ! j = d0"
proof -
  let ?Q = "\<lambda>d. d < nat k \<and> nanc (cs ! d)"
  define d0 where "d0 = (LEAST d. ?Q d)"
  from ex have d0: "?Q d0" unfolding d0_def by (rule LeastI_ex)
  have least: "\<not> nanc (cs ! t)" if "t < d0" for t
    using not_less_Least[of t ?Q] that d0 unfolding d0_def by auto
  note N = iteration_Inr(3)[OF it]
  have l: "2 \<le> length data" using iteration_centroid_length(2)[OF it] d0 by blast
  have "winners ! j = d0" if j: "j < sample" for j
  proof -
    have wk: "winners ! j < nat k" using iteration_Inr(4)[OF it] j by simp
    have "\<exists>d<nat k. fnan exact (point_dist exact data j (cs ! d))"
      using d0 point_dist_nan[of "cs ! d0" data j] by auto
    note W = winner_first_nan[OF it assms(2) exact_order_laws j this]
    have "nanc (cs ! (winners ! j))"
    proof (rule ccontr)
      assume "\<not> nanc (cs ! (winners ! j))"
      from point_dist_fin[OF assms(2,3) l this, of j] j N W(1) show False by simp
    qed
    with wk have "d0 \<le> winners ! j" unfolding d0_def by (intro Least_le) simp
    moreover have "\<not> d0 < winners ! j"
    proof
      assume "d0 < winners ! j"
      with W(2) have "\<not> isnan (point_dist exact data j (cs ! d0))" by simp
      with point_dist_nan[of "cs ! d0" data j] d0 show False by simp
    qed
    ultimately show ?thesis by simp
  qed
  with d0 show ?thesis by blast
qed

lemma nan_forever:
  assumes "rect data" "finite_mat data" "2 \<le> length data" "ncols data = sample" "2 \<le> k"
    "nat k \<le> length cs" "\<forall>d<nat k. 2 \<le> length (cs ! d)" "\<exists>d<nat k. nanc (cs ! d)"
  shows "cluster_loop exact sample data k cs = None"
proof (rule ccontr)
  assume "cluster_loop exact sample data k cs \<noteq> None"
  then obtain y where y: "cluster_loop exact sample data k cs = Some y" by auto
  let ?Inv = "\<lambda>(ar::fl arith) (sample::nat) (data::fl matrix) (k::int) (cs::fl matrix).
     ar = exact \<and>
     rect data \<and> finite_mat data \<and> 2 \<le> length data \<and> ncols data = sample \<and> 2 \<le> k \<and>
     nat k \<le> length cs \<and> (\<forall>d<nat k. 2 \<le> length (cs ! d)) \<and> (\<exists>d<nat k. nanc (cs ! d))"
  let ?P = "\<lambda>(ar::fl arith) (sample::nat) (data::fl matrix) (k::int) (cs::fl matrix)
              (y::error + nat list \<times> fl matrix list \<times> fl matrix).
              \<not> ?Inv ar sample data k cs"
  have step: "?P ar sample data k centroids y"
    if IH: "\<And>ar sample data k cs y. loop ar sample data k cs = Some y
               \<Longrightarrow> ?P ar sample data k cs y"
    and body: "(case iteration ar sample data k centroids of
                  Inl e \<Rightarrow> Some (Inl e)
                | Inr (winners, clusters, new_centroids) \<Rightarrow>
                    if converged ar centroids new_centroids
                    then Some (Inr (winners, clusters, new_centroids))
                    else loop ar sample data k new_centroids) = Some y"
    for loop and ar :: "fl arith" and sample data k centroids y
  proof
    assume inv: "?Inv ar sample data k centroids"
    then have ar: "ar = exact" and k1: "1 \<le> k" by simp_all
    from iteration_ok[of data sample k centroids exact] inv k1 obtain w cl new
      where it: "iteration exact sample data k centroids = Inr (w, cl, new)" by blast
    from inv have "rect data" "finite_mat data" "\<exists>d<nat k. nanc (centroids ! d)" by simp_all
    from nan_centroid_winners[OF it this] obtain d0
      where d0: "d0 < nat k" "\<forall>j<sample. w ! j = d0" by blast
    define i :: nat where "i = (if d0 = 0 then 1 else 0)"
    have i: "i < nat k" "i \<noteq> d0" using inv by (auto simp: i_def)
    have "set w \<subseteq> {d0}" using d0(2) iteration_Inr(2)[OF it] by (auto simp: in_set_conv_nth)
    with i have iw: "i \<notin> set w" by auto
    have nc: "\<not> converged exact centroids new"
      by (rule empty_cluster_not_converged[OF exact_nan_laws it i(1) iw])
    have "new ! i = replicate (length data) (fmean exact [])"
      by (rule empty_cluster_centroid(2)[OF it i(1) iw])
    with inv have "nanc (new ! i)" by (cases data) (auto simp: nanc_def)
    with i have ex: "\<exists>d<nat k. nanc (new ! d)" by blast
    have "length new = nat k" using iteration_Inr(5,6)[OF it] by simp
    moreover have "\<forall>d<nat k. 2 \<le> length (new ! d)"
      using iteration_new_length[OF it] inv by simp
    ultimately have inv': "?Inv ar sample data k new" using inv ex by simp
    from body it nc ar have "loop ar sample data k new = Some y" by simp
    from IH[OF this] inv' show False by blast
  qed
  have "?P exact sample data k cs y"
    by (rule cluster_loop.raw_induct[where P = ?P, OF step y])
  with assms show False by simp
qed

subsection \<open>A value drawn twice\<close>

lemma column_not_nanc:
  assumes "rect data" "finite_mat data" "2 \<le> length data" "r < ncols data"
  shows "\<not> nanc (map (\<lambda>row. row ! r) data)"
proof -
  have l0: "0 < length data" "1 < length data" using assms(3) by auto
  from finite_entry[OF assms(2,1) l0(1) assms(4)] finite_entry[OF assms(2,1) l0(2) assms(4)]
    map_nth_01[OF assms(3), of "\<lambda>row. row ! r"]
  show ?thesis by (simp add: nanc_def del: One_nat_def)
qed

lemma duplicate_draws_loop:
  assumes "rect data" "finite_mat data" "2 \<le> length data" "ncols data = sample"
    and draws: "\<forall>i<nat k. rng i < sample"
    and dup: "i < j" "j < nat k" "rng i = rng j"
  shows "cluster exact sample data k rng = None"
proof -
  define cs where "cs = map (\<lambda>r. map (\<lambda>row. row ! r) data) (map rng [0..<nat k])"
  have "0 < sample" using draws dup by (metis less_nat_zero_code neq0_conv)
  then have init: "init_centroids sample data (map rng [0..<nat k]) = Inr cs"
    unfolding cs_def by (intro init_centroids_ok) (use draws assms(4) in auto)
  have k2: "2 \<le> k" using dup by simp
  have csd: "cs ! d = map (\<lambda>row. row ! rng d) data" if "d < nat k" for d
    using that by (simp add: cs_def)
  have lcs: "nat k \<le> length cs" by (simp add: cs_def)
  have fin: "\<forall>d<nat k. \<not> nanc (cs ! d)"
    using column_not_nanc[OF assms(1-3)] draws assms(4) csd by simp
  have len: "\<forall>d<nat k. 2 \<le> length (cs ! d)" using csd assms(3) by simp
  from iteration_ok[where ar = exact, OF assms(1,3,4) _ lcs len] k2 obtain w cl new
    where it: "iteration exact sample data k cs = Inr (w, cl, new)" by auto
  have "w ! p \<noteq> j" if p: "p < sample" for p
  proof
    assume wj: "w ! p = j"
    have nn: "\<forall>d<nat k. \<not> fnan exact (point_dist exact data p (cs ! d))"
      using point_dist_fin[OF assms(1-3)] fin p assms(4) by simp
    from winner_least(2)[OF it assms(1) exact_order_laws p nn] wj dup(1)
    have "\<not> fge exact (point_dist exact data p (cs ! j)) (point_dist exact data p (cs ! i))"
      by blast
    moreover have "cs ! i = cs ! j" using csd dup by simp
    moreover have "\<not> isnan (point_dist exact data p (cs ! j))" using nn dup(2) by simp
    ultimately show False by (cases "point_dist exact data p (cs ! j)") auto
  qed
  then have jw: "j \<notin> set w" using iteration_Inr(2)[OF it] by (auto simp: in_set_conv_nth)
  have nc: "\<not> converged exact cs new"
    by (rule empty_cluster_not_converged[OF exact_nan_laws it dup(2) jw])
  have "new ! j = replicate (length data) (fmean exact [])"
    by (rule empty_cluster_centroid(2)[OF it dup(2) jw])
  with assms(3) have "nanc (new ! j)" by (cases data) (auto simp: nanc_def)
  with dup(2) have ex: "\<exists>d<nat k. nanc (new ! d)" by blast
  have ln: "nat k \<le> length new" using iteration_Inr(5,6)[OF it] by simp
  have l2: "\<forall>d<nat k. 2 \<le> length (new ! d)"
    using iteration_new_length[OF it] assms(3) by simp
  have "cluster_loop exact sample data k new = None"
    by (rule nan_forever[OF assms(1-4) k2 ln l2 ex])
  then have "cluster_loop exact sample data k cs = None"
    using loop_unfold_continue[OF it nc] by simp
  with init show ?thesis by (simp add: cluster_def)
qed

section \<open>Running the routine on the inputs\<close>

lemmas step_defs = iteration_def all_dist_def set_row_def argmin_axis0_def argmin_def
  select_cols_def ncols_def average_def xsum_def xmean_def column_def upt_conv_Cons

lemmas conv_defs = converged_def mat_sub_def xsum_def

lemmas shape_defs = rect_def finite_mat_def ncols_def


lemma iteration_S1: "iteration exact 4 dataS 2 centS = Inr (winS, clusS, newS)"
  by (simp add: step_defs dataS_def centS_def winS_def clusS_def newS_def)

lemma iteration_S2: "iteration exact 4 dataS 2 newS = Inr (winS, clusS, newS)"
  by (simp add: step_defs dataS_def winS_def clusS_def newS_def)

lemma converged_S1: "\<not> converged exact centS newS"
  by (simp add: conv_defs centS_def newS_def)

lemma converged_S2: "converged exact newS newS"
  by (simp add: conv_defs newS_def)


lemma loop_S: "cluster_loop exact 4 dataS 2 centS = Some (Inr (winS, clusS, newS))"
  using loop_unfold_continue[OF iteration_S1 converged_S1]
    loop_unfold_stop[OF iteration_S2 converged_S2]
  by simp


lemma shape_S: "rect dataS" "finite_mat dataS" "ncols dataS = 4" "length dataS = 2"
  by (simp_all add: shape_defs dataS_def)

lemma shape_A: "rect dataA" "finite_mat dataA" "ncols dataA = 2" "length dataA = 2"
  by (simp_all add: shape_defs dataA_def)

lemma init_C: "init_centroids 3 dataC (map rngC [0..<nat 2]) = Inr centC"
  by (simp add: step_defs dataC_def rngC_def centC_def)

lemma iteration_C1: "iteration exact 3 dataC 2 centC = Inr (winC, clusC, newC)"
  by (simp add: step_defs dataC_def centC_def winC_def clusC_def newC_def)

lemma converged_C1: "converged exact centC newC"
  by (simp add: conv_defs centC_def newC_def)

lemma iteration_C2: "iteration exact 3 dataC 2 newC = Inr (winC2, clusC2, newC2)"
  by (simp add: step_defs dataC_def newC_def winC2_def clusC2_def newC2_def)

lemma shape_5: "rect data5" "finite_mat data5" "ncols data5 = 3" "length data5 = 2"
  by (simp_all add: shape_defs data5_def)

lemma init_5: "init_centroids 3 data5 (map rng5 [0..<nat 3]) = Inr cent5"
  by (simp add: step_defs data5_def rng5_def cent5_def)

lemma dist_rows_5: "dist_rows exact 3 data5 cent5 [0..<nat 3] = Inr dist5"
  by (simp add: step_defs data5_def cent5_def dist5_def)

lemma argmin_5: "argmin_axis0 exact dist5 = Inr win5a"
  by (simp add: step_defs dist5_def win5a_def)

lemma iteration_5a: "iteration exact 3 data5 3 cent5 = Inr (win5a, clus5a, new5a)"
  by (simp add: step_defs data5_def cent5_def win5a_def clus5a_def new5a_def)

lemma converged_5a: "\<not> converged exact cent5 new5a"
  by (simp add: conv_defs cent5_def new5a_def)

lemma iteration_5b: "iteration exact 3 data5 3 new5a = Inr (win5b, clus5b, new5b)"
  by (simp add: step_defs data5_def new5a_def win5b_def clus5b_def new5b_def)

lemma wcss_5a: "wcss data5 win5a new5a = Fin (1 / 2)"
  by (simp add: wcss_def sqdist_def xsum_def data5_def win5a_def new5a_def upt_conv_Cons)

lemma wcss_5b: "wcss data5 win5b new5b = Fin (182 / 3)"
  by (simp add: wcss_def sqdist_def xsum_def data5_def win5b_def new5b_def upt_conv_Cons)




lemma init_3: "init_centroids 3 data3 (map rng3 [0..<nat 2]) = Inr cent3"
  by (simp add: step_defs data3_def rng3_def cent3_def)

lemma iteration_3: "iteration exact 3 data3 2 cent3 = Inr (win3, clus3, new3)"
  by (simp add: step_defs data3_def cent3_def win3_def clus3_def new3_def)

lemma euclid_3:
  "euclid (point data3 1) (map val (cent3 ! 1)) < euclid (point data3 1) (map val (cent3 ! 0))"
  by (simp add: euclid_def point_def data3_def cent3_def lessThan_Suc numeral_3_eq_3
        real_less_rsqrt)

section \<open>The claims\<close>

text \<open>
  C1 (the code departs from the claim). The check is
  \<open>numpy.sum(prev_centroids - centroids) == 0\<close>: a sum of signed differences, which is
  zero as soon as the movements cancel. With the points (0,0), (2,-2), (-1,0), \<open>k = 2\<close>
  and the draws 0 and 2, the first pass moves centroid 0 from (0,0) to (1,-1); the
  differences -1 and 1 cancel, so the loop stops at that pass although the centroids
  have changed, and one more pass would have assigned the points differently. Every
  number of this run is a small integer, which floats compute without rounding.
\<close>

theorem convergence_check_cancels:
  "init_centroids 3 dataC (map rngC [0..<nat 2]) = Inr centC \<and>
   iteration exact 3 dataC 2 centC = Inr (winC, clusC, newC) \<and>
   converged exact centC newC \<and> newC \<noteq> centC \<and>
   cluster_loop exact 3 dataC 2 centC = Some (Inr (winC, clusC, newC)) \<and>
   iteration exact 3 dataC 2 newC = Inr (winC2, clusC2, newC2) \<and>
   winC2 \<noteq> winC \<and> newC2 \<noteq> newC"
  using init_C iteration_C1 converged_C1 iteration_C2
    loop_unfold_stop[OF iteration_C1 converged_C1]
  by (simp add: newC_def centC_def winC_def winC2_def newC2_def)




text \<open>
  C3, as stated: each point goes to the centroid of least Euclidean distance over all D
  coordinates. With three coordinates, the point (1,0,10) is at distance 2 from the
  centroid (3,0,10) and at more than 10 from the centroid (0,0,0), and the step assigns
  it to the latter, cluster 0.
\<close>

theorem nearest_all_coordinates_counterexample:
  "init_centroids 3 data3 (map rng3 [0..<nat 2]) = Inr cent3 \<and>
   iteration exact 3 data3 2 cent3 = Inr (win3, clus3, new3) \<and> win3 ! 1 = 0 \<and>
   euclid (point data3 1) (map val (cent3 ! 1)) < euclid (point data3 1) (map val (cent3 ! 0))"
  using init_3 iteration_3 euclid_3 by (simp add: win3_def)

text \<open>
  C3, amended: in every assignment step that is completed (the data then has \<open>sample\<close>
  points), and in whatever arithmetic the arrays have, each point is assigned by the
  distances that \<open>all_dist\<close> computes in that arithmetic
  from coordinates 0 and 1 alone: to the centroid whose computed distance is least,
  the lowest index winning among equal ones, when none of the \<open>k\<close> computed distances
  is NaN, and to the first centroid whose computed distance is NaN otherwise. Nothing
  is said of the Euclidean distance itself, from which the computed one differs by
  rounding, underflow, overflow or wrap-around. With fewer than two rows of data
  \<open>all_dist\<close> is an IndexError.
\<close>

theorem assignment_least_computed_distance:
  assumes "iteration ar sample data k centroids = Inr (winners, clusters, new)"
    and "rect data" "order_laws ar" "j < ncols data"
  shows "winners ! j < nat k \<and>
     (\<exists>distances. dist_rows ar sample data centroids [0..<nat k] = Inr distances \<and>
        (\<forall>d<nat k. distances ! d ! j = point_dist ar data j (centroids ! d))) \<and>
     ((\<forall>d<nat k. \<not> fnan ar (point_dist ar data j (centroids ! d))) \<longrightarrow>
        (\<forall>d<nat k. fge ar (point_dist ar data j (centroids ! d))
                          (point_dist ar data j (centroids ! (winners ! j)))) \<and>
        (\<forall>d<winners ! j. \<not> fge ar (point_dist ar data j (centroids ! (winners ! j)))
                                   (point_dist ar data j (centroids ! d)))) \<and>
     ((\<exists>d<nat k. fnan ar (point_dist ar data j (centroids ! d))) \<longrightarrow>
        fnan ar (point_dist ar data j (centroids ! (winners ! j))) \<and>
        (\<forall>d<winners ! j. \<not> fnan ar (point_dist ar data j (centroids ! d)))) \<and>
     (length data' < 2 \<longrightarrow> all_dist ar c data' = Inl IndexError)"
proof -
  have j: "j < sample" using iteration_Inr(3)[OF assms(1)] assms(4) by simp
  have "winners ! j < nat k" using iteration_Inr(4)[OF assms(1)] j by simp
  moreover note distance_column(2)[OF assms(1,2) j]
  moreover note winner_least[OF assms(1-3) j] winner_first_nan[OF assms(1-3) j]
  moreover have "length data' < 2 \<longrightarrow> all_dist ar c data' = Inl IndexError"
    by (simp add: all_dist_def)
  ultimately show ?thesis by blast
qed

theorem assignment_least_computed_distance_witness:
  "iteration exact 4 dataS 2 centS = Inr (winS, clusS, newS) \<and> rect dataS \<and>
   order_laws exact \<and> (2::nat) < ncols dataS \<and>
   \<not> fnan exact (point_dist exact dataS 2 (centS ! 0)) \<and>
   \<not> fnan exact (point_dist exact dataS 2 (centS ! 1)) \<and>
   winS ! 2 < nat 2 \<and>
   fge exact (point_dist exact dataS 2 (centS ! 0))
             (point_dist exact dataS 2 (centS ! (winS ! 2))) \<and>
   \<not> fge exact (point_dist exact dataS 2 (centS ! (winS ! 2)))
               (point_dist exact dataS 2 (centS ! 0)) \<and>
   iteration exact 3 data5 3 new5a = Inr (win5b, clus5b, new5b) \<and> rect data5 \<and>
   (0::nat) < ncols data5 \<and> (1::nat) < nat 3 \<and>
   fnan exact (point_dist exact data5 0 (new5a ! 1)) \<and>
   fnan exact (point_dist exact data5 0 (new5a ! (win5b ! 0))) \<and>
   \<not> fnan exact (point_dist exact data5 0 (new5a ! 0)) \<and>
   all_dist exact [Fin 0, Fin 0] [[Fin 0]] = Inl IndexError"
proof -
  have n: "\<not> fnan exact (point_dist exact dataS 2 (centS ! 0))"
    "\<not> fnan exact (point_dist exact dataS 2 (centS ! 1))"
    by (simp_all add: point_dist_def dataS_def centS_def)
  then have fin: "\<forall>d<nat 2. \<not> fnan exact (point_dist exact dataS 2 (centS ! d))"
    by (simp add: less_Suc_eq numeral_2_eq_2)
  have j: "2 < ncols dataS" "0 < ncols data5" by (simp_all add: shape_S shape_5)
  have w: "winS ! 2 = 1" "win5b ! 0 = 1" by (simp_all add: winS_def win5b_def)
  have z: "0 < nat 2" "0 < winS ! 2" "length [[Fin 0]] < 2" "1 < nat 3" "0 < win5b ! 0"
    by (simp_all add: w)
  have m: "fnan exact (point_dist exact data5 0 (new5a ! 1))"
    by (simp add: point_dist_def data5_def new5a_def)
  then have ex: "\<exists>d<nat 3. fnan exact (point_dist exact data5 0 (new5a ! d))"
    using z(4) by blast
  note T = assignment_least_computed_distance[OF iteration_S1 shape_S(1) exact_order_laws
      j(1), of "[[Fin 0]]" "[Fin 0, Fin 0]"]
  note U = assignment_least_computed_distance[OF iteration_5b shape_5(1) exact_order_laws
      j(2), of "[[Fin 0]]" "[Fin 0, Fin 0]"]
  from T have a: "winS ! 2 < nat 2" by blast
  from T fin z(1) have b: "fge exact (point_dist exact dataS 2 (centS ! 0))
             (point_dist exact dataS 2 (centS ! (winS ! 2)))" by blast
  from T fin z(2) have c: "\<not> fge exact (point_dist exact dataS 2 (centS ! (winS ! 2)))
               (point_dist exact dataS 2 (centS ! 0))" by blast
  from T z(3) have e: "all_dist exact [Fin 0, Fin 0] [[Fin 0]] = Inl IndexError" by blast
  from U ex have f: "fnan exact (point_dist exact data5 0 (new5a ! (win5b ! 0)))" by blast
  from U ex z(5) have g: "\<not> fnan exact (point_dist exact data5 0 (new5a ! 0))" by blast
  show ?thesis
    by (intro conjI iteration_S1 shape_S(1) exact_order_laws j n a b c iteration_5b shape_5(1)
        z(4) m f g e)
qed

text \<open>
  C4 (the code departs from the claim). The draws are made with replacement. With the
  two points (0,0) and (1,0), \<open>k = 2\<close> and the value 0 drawn twice, both centroids start
  at (0,0), cluster 1 gets no point, its mean is NaN, and from then on the check
  \<open>numpy.sum(...) == 0\<close> is never true: the loop does not end.
\<close>

theorem duplicate_draw_never_returns:
  "rect dataA \<and> ncols dataA = 2 \<and> cluster exact 2 dataA 2 (\<lambda>i. 0) = None"
proof -
  have "cluster exact 2 dataA 2 (\<lambda>i. 0) = None"
    by (rule duplicate_draws_loop[of _ _ _ _ 0 1]) (simp_all add: shape_A)
  then show ?thesis by (simp add: shape_A)
qed

text \<open>
  C5 (the code departs from the claim). With the points (0,0), (1,0), (10,0), \<open>k = 3\<close>
  and the draws 0, 0, 2, the first pass leaves cluster 1 empty and the total
  within-cluster squared distance is 1/2; the second pass assigns every point to the
  NaN centroid 1, whose mean becomes (11/3, 0), and the total is 182/3.
\<close>

theorem objective_increases:
  "init_centroids 3 data5 (map rng5 [0..<nat 3]) = Inr cent5 \<and>
   iteration exact 3 data5 3 cent5 = Inr (win5a, clus5a, new5a) \<and>
   \<not> converged exact cent5 new5a \<and>
   iteration exact 3 data5 3 new5a = Inr (win5b, clus5b, new5b) \<and>
   wcss data5 win5a new5a = Fin (1 / 2) \<and> wcss data5 win5b new5b = Fin (182 / 3) \<and>
   \<not> xge (wcss data5 win5a new5a) (wcss data5 win5b new5b)"
  using init_5 iteration_5a converged_5a iteration_5b by (simp add: wcss_5a wcss_5b)

text \<open>
  C6, as stated: the routine fails whenever \<open>k\<close> is outside 1..N. With the two points
  (0,0) and (1,0) and \<open>k = 3\<close> no error is raised: the loop is entered and never left.
\<close>

theorem k_above_n_counterexample:
  "ncols dataA = 2 \<and> cluster exact 2 dataA 3 rngB = None"
proof -
  have "cluster exact 2 dataA 3 rngB = None"
    by (rule duplicate_draws_loop[of _ _ _ _ 0 2]) (simp_all add: shape_A rngB_def)
  then show ?thesis by (simp add: shape_A)
qed

text \<open>
  C6, amended: the routine checks none of its arguments. A \<open>k\<close> below 1 ends in the
  ValueError of \<open>numpy.empty\<close> or of \<open>numpy.argmin\<close>, and a dataset without points in
  the ValueError of \<open>randint\<close> (when \<open>sample\<close> is 0) or the IndexError of the first
  \<open>data[:, r]\<close>; a \<open>k\<close> above N is not rejected. This holds in every arithmetic.
\<close>

theorem cluster_bad_arguments:
  "(k \<le> 0 \<longrightarrow> cluster ar sample data k rng = Some (Inl ValueError)) \<and>
   (1 \<le> k \<and> ncols data = 0 \<longrightarrow>
      cluster ar sample data k rng
        = Some (Inl (if sample = 0 then ValueError else IndexError)))"
proof (intro conjI impI)
  assume k: "k \<le> 0"
  have "iteration ar sample data k [] = Inl ValueError"
    using k by (simp add: iteration_def argmin_axis0_def)
  then have "cluster_loop ar sample data k [] = Some (Inl ValueError)"
    by (subst cluster_loop.simps) simp
  then show "cluster ar sample data k rng = Some (Inl ValueError)"
    using k by (simp add: cluster_def)
next
  assume a: "1 \<le> k \<and> ncols data = 0"
  then have "[0..<nat k] = 0 # [1..<nat k]" by (simp add: upt_conv_Cons)
  then show "cluster ar sample data k rng
      = Some (Inl (if sample = 0 then ValueError else IndexError))"
    using a by (simp add: cluster_def column_def)
qed

theorem cluster_bad_arguments_witness:
  "(0::int) \<le> 0 \<and> cluster exact 4 dataS 0 rngS = Some (Inl ValueError) \<and>
   (1::int) \<le> 1 \<and> ncols data0 = 0 \<and> cluster exact 4 data0 1 rngS = Some (Inl IndexError)"
proof -
  have "ncols data0 = 0" by (simp add: ncols_def data0_def)
  then show ?thesis
    using cluster_bad_arguments[where ar = exact and k = 0 and sample = 4 and data = dataS
        and rng = rngS]
      cluster_bad_arguments[where ar = exact and k = 1 and sample = 4 and data = data0
        and rng = rngS]
    by simp
qed

text \<open>
  C7, as stated: an empty cluster is resolved so that no undefined value arises and the
  loop goes on to a result. With the points (0,0), (1,0), (10,0), \<open>k = 3\<close> and the draws
  0, 0, 2, cluster 1 is empty after the first assignment, its new centroid is
  (NaN, NaN), and the call never returns.
\<close>

theorem empty_cluster_counterexample:
  "iteration exact 3 data5 3 cent5 = Inr (win5a, clus5a, new5a) \<and> 1 \<notin> set win5a \<and>
   new5a ! 1 = [NaN, NaN] \<and> cluster exact 3 data5 3 rng5 = None"
proof -
  have "cluster exact 3 data5 3 rng5 = None"
    by (rule duplicate_draws_loop[of _ _ _ _ 0 1]) (simp_all add: shape_5 rng5_def)
  then show ?thesis using iteration_5a by (simp add: win5a_def new5a_def)
qed

text \<open>
  C7, amended: the routine has no resolution for an empty cluster. When cluster \<open>i\<close>
  gets no point in an assignment step, the step goes through without an error, the
  cluster is an array without columns, every coordinate of its new centroid is the
  mean of an empty row, which is NaN, and the check fails, so that pass is not the
  last. This holds in every arithmetic in which NaN spreads as it does in numpy.
\<close>

theorem empty_cluster_policy:
  assumes "nan_laws ar"
    and "dist_rows ar sample data centroids [0..<nat k] = Inr distances"
    and "argmin_axis0 ar distances = Inr winners"
    and "ncols data = sample" "i < nat k" "i \<notin> set winners"
  shows "\<exists>clusters new. iteration ar sample data k centroids = Inr (winners, clusters, new) \<and>
     clusters ! i = map (\<lambda>row. []) data \<and>
     new ! i = replicate (length data) (fmean ar []) \<and> fnan ar (fmean ar []) \<and>
     \<not> converged ar centroids new"
proof -
  have ne: "distances \<noteq> []" using argmin_axis0_Inr[OF assms(3)] by simp
  have "length winners = ncols data"
    using argmin_axis0_Inr[OF assms(3)] dist_rows_ncols[OF assms(2) ne] assms(4) by simp
  from make_clusters_ok[OF this, of "[0..<nat k]"] obtain clusters
    where "make_clusters data winners [0..<nat k] = Inr clusters" by blast
  with assms(2,3,5) have it:
    "iteration ar sample data k centroids = Inr (winners, clusters, map (average ar) clusters)"
    by (simp add: iteration_def)
  have "fnan ar (fmean ar [])" using assms(1) unfolding nan_laws_def by blast
  with it empty_cluster_centroid[OF it assms(5,6)]
    empty_cluster_not_converged[OF assms(1) it assms(5,6)]
  show ?thesis by blast
qed

theorem empty_cluster_policy_witness:
  "nan_laws exact \<and>
   dist_rows exact 3 data5 cent5 [0..<nat 3] = Inr dist5 \<and>
   argmin_axis0 exact dist5 = Inr win5a \<and>
   ncols data5 = 3 \<and> 1 < nat 3 \<and> 1 \<notin> set win5a \<and>
   (\<exists>clusters new. iteration exact 3 data5 3 cent5 = Inr (win5a, clusters, new) \<and>
      clusters ! 1 = map (\<lambda>row. []) data5 \<and> new ! 1 = replicate (length data5) NaN \<and>
      \<not> converged exact cent5 new)"
proof -
  have a: "ncols data5 = 3" "1 < nat 3" "1 \<notin> set win5a"
    by (simp_all add: shape_5 win5a_def)
  from empty_cluster_policy[OF exact_nan_laws dist_rows_5 argmin_5 a]
  show ?thesis using exact_nan_laws dist_rows_5 argmin_5 a by simp
qed

text \<open>
  C8. Every assignment step that produces an assignment produces a total and exclusive
  one, in every arithmetic: \<open>winners\<close> has one entry per point, and the entry is one
  cluster index below \<open>k\<close>. The same holds for the assignment the loop ends with. A step
  does produce an assignment when the data has at least two rows and \<open>sample\<close> columns,
  \<open>k\<close> is at least 1 and there are \<open>k\<close> centroids of at least two coordinates.
\<close>

theorem assignment_total_exclusive:
  "(iteration ar sample data k centroids = Inr (winners, clusters, new) \<longrightarrow>
      length winners = ncols data \<and> (\<forall>j<ncols data. \<exists>!i. i < nat k \<and> winners ! j = i)) \<and>
   (cluster_loop ar sample data k centroids = Some (Inr (winners, clusters, new)) \<longrightarrow>
      length winners = ncols data \<and> (\<forall>j<ncols data. \<exists>!i. i < nat k \<and> winners ! j = i)) \<and>
   (rect data \<and> 2 \<le> length data \<and> ncols data = sample \<and> 1 \<le> k \<and>
    nat k \<le> length centroids \<and> (\<forall>d<nat k. 2 \<le> length (centroids ! d)) \<longrightarrow>
      (\<exists>winners clusters new.
         iteration ar sample data k centroids = Inr (winners, clusters, new)))"
proof (intro conjI impI)
  assume it: "iteration ar sample data k centroids = Inr (winners, clusters, new)"
  from iteration_Inr(2-4)[OF it]
  show "length winners = ncols data" "\<forall>j<ncols data. \<exists>!i. i < nat k \<and> winners ! j = i"
    by auto
next
  assume "cluster_loop ar sample data k centroids = Some (Inr (winners, clusters, new))"
  from cluster_loop_final[OF this] obtain prev
    where it: "iteration ar sample data k prev = Inr (winners, clusters, new)" by blast
  from iteration_Inr(2-4)[OF it]
  show "length winners = ncols data" "\<forall>j<ncols data. \<exists>!i. i < nat k \<and> winners ! j = i"
    by auto
next
  assume "rect data \<and> 2 \<le> length data \<and> ncols data = sample \<and> 1 \<le> k \<and>
    nat k \<le> length centroids \<and> (\<forall>d<nat k. 2 \<le> length (centroids ! d))"
  then show "\<exists>winners clusters new.
      iteration ar sample data k centroids = Inr (winners, clusters, new)"
    using iteration_ok by blast
qed

theorem assignment_total_exclusive_witness:
  "iteration exact 4 dataS 2 centS = Inr (winS, clusS, newS) \<and>
   cluster_loop exact 4 dataS 2 centS = Some (Inr (winS, clusS, newS)) \<and>
   rect dataS \<and> 2 \<le> length dataS \<and> ncols dataS = 4 \<and> (1::int) \<le> 2 \<and>
   nat 2 \<le> length centS \<and> list_all (\<lambda>c. 2 \<le> length c) centS \<and>
   length winS = ncols dataS \<and> list_all (\<lambda>w. w < nat 2) winS \<and>
   (\<exists>winners clusters new. iteration exact 4 dataS 2 centS = Inr (winners, clusters, new))"
proof -
  have shape: "2 \<le> length dataS" "ncols dataS = 4" "nat 2 \<le> length centS"
    "\<forall>d<nat 2. 2 \<le> length (centS ! d)" "list_all (\<lambda>c. 2 \<le> length c) centS"
    "list_all (\<lambda>w. w < nat 2) winS"
    by (simp_all add: dataS_def ncols_def centS_def winS_def less_Suc_eq numeral_2_eq_2)
  show ?thesis
    using assignment_total_exclusive[of exact 4 dataS 2 centS winS clusS newS]
      iteration_S1 loop_S shape_S(1) shape
    by simp
qed

text \<open>
  C9, as stated: with \<open>k\<close> equal to the number of points, each point ends in its own
  cluster after at most one pass. The four points (0,0), (0,1), (10,10), (10,11) are
  distinct; with \<open>k = 4\<close> and the draws 0, 1, 2, 0 the call never returns.
\<close>

theorem k_equals_n_counterexample:
  "distinct (map (point dataS) [0, 1, 2, 3]) \<and> ncols dataS = 4 \<and>
   cluster exact 4 dataS 4 rngD = None"
proof -
  have "cluster exact 4 dataS 4 rngD = None"
    by (rule duplicate_draws_loop[of _ _ _ _ 0 3]) (simp_all add: shape_S rngD_def)
  moreover have "distinct (map (point dataS) [0, 1, 2, 3])"
    by (simp add: point_def dataS_def)
  ultimately show ?thesis by (simp add: shape_S)
qed

text \<open>
  C9, amended: let the data have \<open>sample\<close> points and at least two rows, let \<open>k\<close> be the
  number of points and the \<open>k\<close> draws pairwise distinct. If, in the arithmetic of the
  arrays, no distance that \<open>all_dist\<close> computes between two points is NaN, each point
  is computed strictly nearer to its own position than to the position of any other
  point, the mean of a single value is that value, and the check passes on the drawn
  centroids left unchanged, then the first pass assigns the point drawn for centroid
  \<open>d\<close> to cluster \<open>d\<close> and nothing else, leaves every centroid at its point, and is the
  last pass. Distinct points alone are not enough: the condition on the computed
  distances fails for points that differ in coordinates other than 0 and 1 only, or
  whose squared differences underflow to 0.
\<close>

theorem distinct_draws_singletons:
  assumes "rect data" "2 \<le> length data" "ncols data = sample" "0 < sample"
    and "\<forall>i<sample. rng i < sample" "inj_on rng {..<sample}"
    and "order_laws ar"
    and "\<forall>p<sample. \<forall>q<sample.
        \<not> fnan ar (point_dist ar data p (map (\<lambda>row. row ! q) data)) \<and>
        (p \<noteq> q \<longrightarrow> \<not> fge ar (point_dist ar data p (map (\<lambda>row. row ! p) data))
                            (point_dist ar data p (map (\<lambda>row. row ! q) data)))"
    and "\<forall>row\<in>set data. \<forall>x\<in>set row. fmean ar [x] = x"
    and "cs = map (\<lambda>d. map (\<lambda>row. row ! rng d) data) [0..<sample]"
    and "converged ar cs cs"
  shows "init_centroids sample data (map rng [0..<nat (int sample)]) = Inr cs \<and>
     (\<exists>winners clusters.
        iteration ar sample data (int sample) cs = Inr (winners, clusters, cs) \<and>
        cluster_loop ar sample data (int sample) cs = Some (Inr (winners, clusters, cs)) \<and>
        (\<forall>d<sample. winners ! rng d = d \<and> clusters ! d = map (\<lambda>row. [row ! rng d]) data) \<and>
        cluster ar sample data (int sample) rng = Some (Inr (PyNone, plots clusters)))"
proof -
  have "init_centroids sample data (map rng [0..<sample])
        = Inr (map (\<lambda>r. map (\<lambda>row. row ! r) data) (map rng [0..<sample]))"
    by (rule init_centroids_ok) (use assms(3-5) in auto)
  then have init: "init_centroids sample data (map rng [0..<nat (int sample)]) = Inr cs"
    by (simp add: assms(10) comp_def)
  have len: "nat (int sample) \<le> length cs" "\<forall>d<nat (int sample). 2 \<le> length (cs ! d)"
    using assms(2) by (simp_all add: assms(10))
  from iteration_ok[where ar = ar, OF assms(1,2,3) _ len] assms(4) obtain w cl new
    where it: "iteration ar sample data (int sample) cs = Inr (w, cl, new)" by auto
  note one = distinct_draws_one_iteration[OF assms(1,3,7) refl assms(5,6,8,9,10) it]
  have it': "iteration ar sample data (int sample) cs = Inr (w, cl, cs)"
    using it one(1) by simp
  have lp: "cluster_loop ar sample data (int sample) cs = Some (Inr (w, cl, cs))"
    by (rule loop_unfold_stop[OF it' assms(11)])
  have "cluster ar sample data (int sample) rng = Some (Inr (PyNone, plots cl))"
    using init lp by (simp add: cluster_def)
  with init it' lp one(2) show ?thesis by blast
qed

theorem distinct_draws_singletons_witness:
  "rect dataA \<and> 2 \<le> length dataA \<and> ncols dataA = 2 \<and> (0::nat) < 2 \<and>
   rngW 0 < 2 \<and> rngW 1 < 2 \<and> inj_on rngW {..<2} \<and> order_laws exact \<and>
   \<not> fnan exact (point_dist exact dataA 0 (map (\<lambda>row. row ! 0) dataA)) \<and>
   \<not> fnan exact (point_dist exact dataA 0 (map (\<lambda>row. row ! 1) dataA)) \<and>
   \<not> fnan exact (point_dist exact dataA 1 (map (\<lambda>row. row ! 0) dataA)) \<and>
   \<not> fnan exact (point_dist exact dataA 1 (map (\<lambda>row. row ! 1) dataA)) \<and>
   \<not> fge exact (point_dist exact dataA 0 (map (\<lambda>row. row ! 0) dataA))
               (point_dist exact dataA 0 (map (\<lambda>row. row ! 1) dataA)) \<and>
   \<not> fge exact (point_dist exact dataA 1 (map (\<lambda>row. row ! 1) dataA))
               (point_dist exact dataA 1 (map (\<lambda>row. row ! 0) dataA)) \<and>
   list_all (list_all (\<lambda>x. fmean exact [x] = x)) dataA \<and>
   centW = map (\<lambda>d. map (\<lambda>row. row ! rngW d) dataA) [0..<2] \<and>
   converged exact centW centW \<and>
   init_centroids 2 dataA (map rngW [0..<nat 2]) = Inr centW \<and>
   (\<exists>winners clusters.
      iteration exact 2 dataA 2 centW = Inr (winners, clusters, centW) \<and>
      cluster_loop exact 2 dataA 2 centW = Some (Inr (winners, clusters, centW)) \<and>
      winners ! rngW 0 = 0 \<and> winners ! rngW 1 = 1 \<and>
      cluster exact 2 dataA 2 rngW = Some (Inr (PyNone, plots clusters)))"
proof -
  have r: "rngW 0 < 2" "rngW 1 < 2" by (simp_all add: rngW_def)
  then have draws: "\<forall>i<2. rngW i < 2" by (simp add: less_Suc_eq numeral_2_eq_2)
  have inj: "inj_on rngW {..<2}"
    by (auto simp: inj_on_def rngW_def)
  have n: "\<not> fnan exact (point_dist exact dataA 0 (map (\<lambda>row. row ! 0) dataA))"
    "\<not> fnan exact (point_dist exact dataA 0 (map (\<lambda>row. row ! 1) dataA))"
    "\<not> fnan exact (point_dist exact dataA 1 (map (\<lambda>row. row ! 0) dataA))"
    "\<not> fnan exact (point_dist exact dataA 1 (map (\<lambda>row. row ! 1) dataA))"
    "\<not> fge exact (point_dist exact dataA 0 (map (\<lambda>row. row ! 0) dataA))
               (point_dist exact dataA 0 (map (\<lambda>row. row ! 1) dataA))"
    "\<not> fge exact (point_dist exact dataA 1 (map (\<lambda>row. row ! 1) dataA))
               (point_dist exact dataA 1 (map (\<lambda>row. row ! 0) dataA))"
    by (simp_all add: point_dist_def dataA_def)
  have sep: "\<forall>p<2. \<forall>q<2.
        \<not> fnan exact (point_dist exact dataA p (map (\<lambda>row. row ! q) dataA)) \<and>
        (p \<noteq> q \<longrightarrow> \<not> fge exact (point_dist exact dataA p (map (\<lambda>row. row ! p) dataA))
                            (point_dist exact dataA p (map (\<lambda>row. row ! q) dataA)))"
  proof (intro allI impI)
    fix p q :: nat assume "p < 2" "q < 2"
    then have "(p = 0 \<or> p = 1) \<and> (q = 0 \<or> q = 1)" by auto
    with n show "\<not> fnan exact (point_dist exact dataA p (map (\<lambda>row. row ! q) dataA)) \<and>
        (p \<noteq> q \<longrightarrow> \<not> fge exact (point_dist exact dataA p (map (\<lambda>row. row ! p) dataA))
                            (point_dist exact dataA p (map (\<lambda>row. row ! q) dataA)))"
      by auto
  qed
  have m: "list_all (list_all (\<lambda>x. fmean exact [x] = x)) dataA"
    by (simp add: dataA_def xmean_def xsum_def)
  then have one: "\<forall>row\<in>set dataA. \<forall>x\<in>set row. fmean exact [x] = x"
    by (simp add: list_all_iff)
  have cs: "centW = map (\<lambda>d. map (\<lambda>row. row ! rngW d) dataA) [0..<2]"
    by (simp add: centW_def dataA_def rngW_def upt_conv_Cons)
  have cv: "converged exact centW centW" by (simp add: conv_defs centW_def)
  have l: "2 \<le> length dataA" "(0::nat) < 2" by (simp_all add: shape_A)
  from distinct_draws_singletons[OF shape_A(1) l(1) shape_A(3) l(2) draws inj
      exact_order_laws sep one cs cv]
  obtain winners clusters where
    i: "init_centroids 2 dataA (map rngW [0..<nat (int 2)]) = Inr centW"
    and a: "iteration exact 2 dataA (int 2) centW = Inr (winners, clusters, centW)"
    and b: "cluster_loop exact 2 dataA (int 2) centW = Some (Inr (winners, clusters, centW))"
    and c: "\<forall>d<2. winners ! rngW d = d \<and> clusters ! d = map (\<lambda>row. [row ! rngW d]) dataA"
    and d: "cluster exact 2 dataA (int 2) rngW = Some (Inr (PyNone, plots clusters))"
    by blast
  from c have c': "winners ! rngW 0 = 0" "winners ! rngW 1 = 1" by simp_all
  have e: "\<exists>winners clusters.
      iteration exact 2 dataA 2 centW = Inr (winners, clusters, centW) \<and>
      cluster_loop exact 2 dataA 2 centW = Some (Inr (winners, clusters, centW)) \<and>
      winners ! rngW 0 = 0 \<and> winners ! rngW 1 = 1 \<and>
      cluster exact 2 dataA 2 rngW = Some (Inr (PyNone, plots clusters))"
    using a b c' d by auto
  have i': "init_centroids 2 dataA (map rngW [0..<nat 2]) = Inr centW" using i by simp
  show ?thesis
    by (intro conjI shape_A(1) l shape_A(3) r inj exact_order_laws n m cs cv i' e)
qed




end
